theory Spec2Isabelle
  imports Main "HOL-Library.AList"
begin

section \<open>Text helpers shared by the three walkers\<close>

text \<open>
  A shallow embedding of the three walkers of the price-transparency normalizer
  (\<^verbatim>\<open>json_parser.py\<close>, \<^verbatim>\<open>tall_format_csv_extractor.py\<close>,
  \<^verbatim>\<open>wide_format_csv_extractor.py\<close>): each loop of a walker is a function that threads
  the module-level accumulators through and collects the records it emits, and the
  properties of the emitted records and of the audit report are proved about these
  functions.
\<close>

text \<open>
  Python strings are modelled as HOL strings (lists of characters). The helpers below
  follow \<^verbatim>\<open>str.strip()\<close>, \<^verbatim>\<open>str.upper()\<close>, \<^verbatim>\<open>str.split(sep)\<close>,
  \<^verbatim>\<open>str.count(sep)\<close> and \<^verbatim>\<open>sep.join(parts)\<close> on ASCII text: the white space
  of \<^verbatim>\<open>strip\<close> is the ASCII white space of \<^verbatim>\<open>str.isspace\<close> (tab, line feed,
  vertical tab, form feed, carriage return, the four separators 28 to 31 and the blank),
  and \<^verbatim>\<open>upper\<close> maps the letters a to z.
\<close>

definition is_space :: "char \<Rightarrow> bool" where
  "is_space c = (let n = (of_char c :: nat) in (9 \<le> n \<and> n \<le> 13) \<or> (28 \<le> n \<and> n \<le> 32))"

definition strip :: "string \<Rightarrow> string" where
  "strip s = rev (dropWhile is_space (rev (dropWhile is_space s)))"

definition upper_char :: "char \<Rightarrow> char" where
  "upper_char c = (let n = (of_char c :: nat) in if 97 \<le> n \<and> n \<le> 122 then char_of (n - 32) else c)"

definition upper :: "string \<Rightarrow> string" where
  "upper s = map upper_char s"

text \<open>
  \<^verbatim>\<open>s.split(sep)\<close> for a one-character separator and \<^verbatim>\<open>re.split(r"[,|]", s)\<close>
  cut at every character of the separator class; the empty string gives one empty piece.
\<close>

fun split_on :: "(char \<Rightarrow> bool) \<Rightarrow> string \<Rightarrow> string list" where
  "split_on d [] = [[]]"
| "split_on d (c # cs) =
     (if d c then [] # split_on d cs
      else (let r = split_on d cs in (c # hd r) # tl r))"

definition is_pipe :: "char \<Rightarrow> bool" where
  "is_pipe c = (c = CHR ''|'')"

definition count_pipes :: "string \<Rightarrow> nat" where
  "count_pipes s = length (filter is_pipe s)"

fun join :: "string \<Rightarrow> string list \<Rightarrow> string" where
  "join sep [] = []"
| "join sep [p] = p"
| "join sep (p # q # ps) = p @ sep @ join sep (q # ps)"

section \<open>The run accumulators\<close>

text \<open>
  Each module keeps five module-level \<^verbatim>\<open>defaultdict\<close>s. A \<^verbatim>\<open>defaultdict(int)\<close> is
  an association list in insertion order (the order \<^verbatim>\<open>json.dump\<close> writes);
  \<^verbatim>\<open>d[k] += 1\<close> updates the entry of \<open>k\<close> in place or appends \<open>(k, 1)\<close>;
  \<^verbatim>\<open>d.get(k, 0)\<close> reads without inserting.
\<close>

type_synonym 'k counter = "('k \<times> nat) list"

fun dd_incr :: "'k \<Rightarrow> 'k counter \<Rightarrow> 'k counter" where
  "dd_incr k [] = [(k, 1)]"
| "dd_incr k ((k', n) # d) = (if k' = k then (k', n + 1) # d else (k', n) # dd_incr k d)"

definition dd_get :: "'k counter \<Rightarrow> 'k \<Rightarrow> nat" where
  "dd_get d k = (case map_of d k of None \<Rightarrow> 0 | Some n \<Rightarrow> n)"

text \<open>
  \<^verbatim>\<open>CODE_TYPE_MAPPINGS_USED[raw].add(normalized)\<close> on a \<^verbatim>\<open>defaultdict(set)\<close>;
  the normalized value is \<open>None\<close> when the map has no entry for the raw token.
\<close>

fun dd_add :: "'k \<Rightarrow> 'v \<Rightarrow> ('k \<times> 'v set) list \<Rightarrow> ('k \<times> 'v set) list" where
  "dd_add k v [] = [(k, {v})]"
| "dd_add k v ((k', s) # d) = (if k' = k then (k', insert v s) # d else (k', s) # dd_add k v d)"

record 'm audit =
  UNKNOWN_CODE_TYPES :: "string counter"
  FIELD_PRESENCE_LOG :: "string counter"
  CODE_TYPE_PRESENCE :: "string counter"
  CODE_TYPE_MAPPINGS_USED :: "(string \<times> string option set) list"
  MODIFIER_COUNTS :: "'m counter"

definition audit_init :: "'m audit" where
  "audit_init = \<lparr>UNKNOWN_CODE_TYPES = [], FIELD_PRESENCE_LOG = [], CODE_TYPE_PRESENCE = [],
     CODE_TYPE_MAPPINGS_USED = [], MODIFIER_COUNTS = []\<rparr>"

section \<open>Modifier extraction (tall and wide walkers)\<close>

text \<open>
  \<^verbatim>\<open>
  modifiers_raw = row.get("modifiers", "").strip()
  modifier_list = [m.strip() for m in re.split(r"[,|]", modifiers_raw) if m.strip()]
  for m in modifier_list:
      MODIFIER_COUNTS[m] += 1
  \<close>
\<close>

definition is_mod_delim :: "char \<Rightarrow> bool" where
  "is_mod_delim c = (c = CHR '','' \<or> c = CHR ''|'')"

definition modifier_list :: "string \<Rightarrow> string list" where
  "modifier_list modifiers_raw =
     map strip (filter (\<lambda>m. strip m \<noteq> []) (split_on is_mod_delim modifiers_raw))"

definition extract_modifiers :: "string \<Rightarrow> string counter \<Rightarrow> string list \<times> string counter" where
  "extract_modifiers cell counts =
     (let modifiers_raw = strip cell;
          ml = modifier_list modifiers_raw
      in (ml, fold dd_incr ml counts))"

text \<open>
  The extractor as the specification words it: split the raw field on comma or pipe, trim
  each piece, discard the empty pieces.
\<close>

definition spec_modifier_tokens :: "string \<Rightarrow> string list" where
  "spec_modifier_tokens raw = filter (\<lambda>t. t \<noteq> []) (map strip (split_on is_mod_delim raw))"

section \<open>Configuration, metadata and emitted records\<close>

text \<open>
  \<^verbatim>\<open>load_registry_info\<close> and \<^verbatim>\<open>load_extract_config\<close> read external files; their
  results are inputs here. The allowed code types are a Python set of strings; the walkers
  test membership and, for the report, iterate over it, so the model keeps the elements in
  the iteration order of the set. \<^verbatim>\<open>code_type_map.get(raw)\<close> is \<open>None\<close> for a
  token outside the map, and \<open>None\<close> is no member of a set of strings.
\<close>

record metadata =
  hospital_name :: string
  zip_code :: string

record config =
  allowed_code_types :: "string list"
  code_type_map :: "string \<rightharpoonup> string"

text \<open>
  A row of a pandas frame read with \<^verbatim>\<open>dtype=str\<close> and missing cells replaced by the
  empty string: column name to cell. \<^verbatim>\<open>row.get(col, "")\<close> is the cell, or the empty
  string for a column the frame does not have.
\<close>

type_synonym row = "string \<rightharpoonup> string"

definition row_get :: "row \<Rightarrow> string \<Rightarrow> string" where
  "row_get row col = (case row col of None \<Rightarrow> [] | Some v \<Rightarrow> v)"

text \<open>
  An emitted record is the Python dict the walker builds: its keys in construction order.
  \<^verbatim>\<open>d.get(k, "")\<close> and the truth test \<^verbatim>\<open>if d.get(k)\<close> follow.
\<close>

type_synonym 'v crecord = "(string \<times> 'v) list"

definition rec_get :: "string crecord \<Rightarrow> string \<Rightarrow> string" where
  "rec_get r k = (case map_of r k of None \<Rightarrow> [] | Some v \<Rightarrow> v)"

definition field_truthy :: "('v \<Rightarrow> bool) \<Rightarrow> 'v crecord \<Rightarrow> string \<Rightarrow> bool" where
  "field_truthy truthy r k = (case map_of r k of None \<Rightarrow> False | Some v \<Rightarrow> truthy v)"

definition str_truthy :: "string \<Rightarrow> bool" where
  "str_truthy v = (v \<noteq> [])"

text \<open>
  \<^verbatim>\<open>
  for key in HEADERS:
      if row.get(key):
          FIELD_PRESENCE_LOG[key] += 1
  \<close>
\<close>

definition log_presence ::
  "('v \<Rightarrow> bool) \<Rightarrow> string list \<Rightarrow> 'v crecord \<Rightarrow> string counter \<Rightarrow> string counter" where
  "log_presence truthy keys r log =
     fold (\<lambda>k l. if field_truthy truthy r k then dd_incr k l else l) keys log"

text \<open>
  A \<^verbatim>\<open>for\<close> loop whose body updates the accumulators and hands records to the
  writer: the state is threaded through, the records are collected in order.
\<close>

fun run_loop :: "('x \<Rightarrow> 's \<Rightarrow> 's \<times> 'r list) \<Rightarrow> 'x list \<Rightarrow> 's \<Rightarrow> 's \<times> 'r list" where
  "run_loop body [] s = (s, [])"
| "run_loop body (x # xs) s =
     (let (s1, out1) = body x s;
          (s2, out2) = run_loop body xs s1
      in (s2, out1 @ out2))"

section \<open>Code type normalization (the same lines in the three walkers)\<close>

text \<open>
  \<^verbatim>\<open>
  normalized_code_type = code_type_map.get(raw_code_type)
  CODE_TYPE_MAPPINGS_USED[raw_code_type].add(normalized_code_type)
  if normalized_code_type not in allowed_code_types:
      UNKNOWN_CODE_TYPES[raw_code_type] += 1
      continue
  CODE_TYPE_PRESENCE[normalized_code_type] += 1
  \<close>
  The result is \<open>Some t\<close> when the loop body goes on with the admitted type \<open>t\<close>,
  and \<open>None\<close> at \<^verbatim>\<open>continue\<close>.
\<close>

definition admit_code_type :: "config \<Rightarrow> string \<Rightarrow> 'm audit \<Rightarrow> string option \<times> 'm audit" where
  "admit_code_type cfg raw_code_type a =
     (let normalized_code_type = code_type_map cfg raw_code_type;
          a1 = a\<lparr>CODE_TYPE_MAPPINGS_USED :=
                  dd_add raw_code_type normalized_code_type (CODE_TYPE_MAPPINGS_USED a)\<rparr>
      in case normalized_code_type of
           None \<Rightarrow>
             (None, a1\<lparr>UNKNOWN_CODE_TYPES := dd_incr raw_code_type (UNKNOWN_CODE_TYPES a1)\<rparr>)
         | Some t \<Rightarrow>
             if t \<in> set (allowed_code_types cfg)
             then (Some t, a1\<lparr>CODE_TYPE_PRESENCE := dd_incr t (CODE_TYPE_PRESENCE a1)\<rparr>)
             else (None, a1\<lparr>UNKNOWN_CODE_TYPES := dd_incr raw_code_type (UNKNOWN_CODE_TYPES a1)\<rparr>))"

text \<open>The column names \<^verbatim>\<open>f"code|{i}"\<close> and \<^verbatim>\<open>f"code|{i}|type"\<close> for \<open>i\<close> in 1 to 4.\<close>

definition digit_str :: "nat \<Rightarrow> string" where
  "digit_str i = [char_of (48 + i)]"

definition code_col :: "nat \<Rightarrow> string" where
  "code_col i = ''code|'' @ digit_str i"

definition type_col :: "nat \<Rightarrow> string" where
  "type_col i = ''code|'' @ digit_str i @ ''|type''"

section \<open>The audit report\<close>

text \<open>
  \<^verbatim>\<open>
  full_field_summary = {field: FIELD_PRESENCE_LOG.get(field, 0) for field in HEADERS}
  missing_code_types = [ct for ct in allowed_code_types if CODE_TYPE_PRESENCE[ct] == 0]
  \<close>
  Reading \<^verbatim>\<open>CODE_TYPE_PRESENCE[ct]\<close> on a \<^verbatim>\<open>defaultdict\<close> inserts a zero entry
  for a type it does not hold, before the dict is dumped.
\<close>

definition full_field_summary :: "string list \<Rightarrow> 'm audit \<Rightarrow> (string \<times> nat) list" where
  "full_field_summary headers a = map (\<lambda>field. (field, dd_get (FIELD_PRESENCE_LOG a) field)) headers"

fun dd_touch :: "'k \<Rightarrow> 'k counter \<Rightarrow> 'k counter" where
  "dd_touch k [] = [(k, 0)]"
| "dd_touch k ((k', n) # d) = (if k' = k then (k', n) # d else (k', n) # dd_touch k d)"

definition missing_code_types :: "config \<Rightarrow> 'm audit \<Rightarrow> string list \<times> 'm audit" where
  "missing_code_types cfg a =
     (filter (\<lambda>ct. dd_get (CODE_TYPE_PRESENCE a) ct = 0) (allowed_code_types cfg),
      a\<lparr>CODE_TYPE_PRESENCE := fold dd_touch (allowed_code_types cfg) (CODE_TYPE_PRESENCE a)\<rparr>)"

record ('addr, 'mrf, 'm) devlog =
  raw_address_info :: "'addr \<times> 'addr"
  mrf_metadata :: "'mrf \<times> 'mrf"
  field_presence_summary :: "(string \<times> nat) list"
  unrecognized_code_types :: "string counter"
  missing_code_types_report :: "string list"
  code_type_presence :: "string counter"
  code_type_normalizations_used :: "(string \<times> string option set) list"
  modifier_counts :: "'m counter"

definition build_devlog ::
  "'addr \<times> 'addr \<Rightarrow> 'mrf \<times> 'mrf \<Rightarrow> string list \<Rightarrow> config \<Rightarrow> 'm audit
     \<Rightarrow> ('addr, 'mrf, 'm) devlog \<times> 'm audit" where
  "build_devlog address mrf headers cfg a =
     (let summary = full_field_summary headers a;
          (missing, a1) = missing_code_types cfg a
      in (\<lparr>raw_address_info = address, mrf_metadata = mrf,
            field_presence_summary = summary,
            unrecognized_code_types = UNKNOWN_CODE_TYPES a1,
            missing_code_types_report = missing,
            code_type_presence = CODE_TYPE_PRESENCE a1,
            code_type_normalizations_used = CODE_TYPE_MAPPINGS_USED a1,
            modifier_counts = MODIFIER_COUNTS a1\<rparr>, a1))"

section \<open>Tall-format walker\<close>

definition HEADERS_tall :: "string list" where
  "HEADERS_tall =
    [''hospital name'', ''zip code'', ''code'', ''code type'', ''description'', ''drug unit'', ''drug type'',
     ''insurance payer name'', ''insurance payer id'', ''insurance plan name'',
     ''negotiated price'', ''negotiated percentage'', ''negotiated algorithm'', ''negotiated methodology'',
     ''gross charge'', ''discounted cash price'', ''min price'', ''max price'', ''estimated amount'',
     ''setting'', ''additional notes'', ''modifiers'']"

text \<open>
  \<^verbatim>\<open>re.search(r"(.*)\[(.*?)\]", payer)\<close>. The dot does not match a line feed, so a
  match lies within one line and the search finds the first line that has an opening
  bracket before a closing one. The greedy first group ends at the last opening bracket
  that a closing bracket still follows; the lazy second group ends at the first closing
  bracket after it.
\<close>

definition re_search_line :: "string \<Rightarrow> (string \<times> string) option" where
  "re_search_line l =
     (if CHR '']'' \<notin> set l then None
      else let pre = rev (tl (dropWhile (\<lambda>c. c \<noteq> CHR '']'') (rev l)))
           in if CHR ''['' \<notin> set pre then None
              else let g1 = rev (tl (dropWhile (\<lambda>c. c \<noteq> CHR ''['') (rev pre)));
                       g2 = takeWhile (\<lambda>c. c \<noteq> CHR '']'') (drop (length g1 + 1) l)
                   in Some (g1, g2))"

fun first_match :: "string list \<Rightarrow> (string \<times> string) option" where
  "first_match [] = None"
| "first_match (l # ls) = (case re_search_line l of None \<Rightarrow> first_match ls | Some m \<Rightarrow> Some m)"

definition re_search_payer :: "string \<Rightarrow> (string \<times> string) option" where
  "re_search_payer payer = first_match (split_on (\<lambda>c. c = CHR 0x0A) payer)"

definition tall_output_row ::
  "metadata \<Rightarrow> row \<Rightarrow> string \<Rightarrow> string \<Rightarrow> string \<Rightarrow> string \<Rightarrow> string \<Rightarrow> string \<Rightarrow> string crecord" where
  "tall_output_row meta row code normalized_code_type payer_name payer_id notes modifiers_raw =
    [(''hospital name'', hospital_name meta),
     (''zip code'', zip_code meta),
     (''code'', code),
     (''code type'', normalized_code_type),
     (''description'', row_get row ''description''),
     (''drug unit'', row_get row ''drug_unit_of_measurement''),
     (''drug type'', row_get row ''drug_type_of_measurement''),
     (''insurance payer name'', payer_name),
     (''insurance payer id'', payer_id),
     (''insurance plan name'', row_get row ''plan_name''),
     (''negotiated price'', row_get row ''standard_charge|negotiated_dollar''),
     (''negotiated percentage'', row_get row ''standard_charge|negotiated_percentage''),
     (''negotiated algorithm'', row_get row ''standard_charge|negotiated_algorithm''),
     (''negotiated methodology'', row_get row ''standard_charge|methodology''),
     (''gross charge'', row_get row ''standard_charge|gross''),
     (''discounted cash price'', row_get row ''standard_charge|discounted_cash''),
     (''min price'', row_get row ''standard_charge|min''),
     (''max price'', row_get row ''standard_charge|max''),
     (''estimated amount'', row_get row ''estimated_amount''),
     (''setting'', row_get row ''setting''),
     (''additional notes'', notes),
     (''modifiers'', modifiers_raw)]"

definition tall_slot ::
  "metadata \<Rightarrow> config \<Rightarrow> row \<Rightarrow> string \<Rightarrow> string \<Rightarrow> string \<Rightarrow> string \<Rightarrow> nat \<Rightarrow> string audit
     \<Rightarrow> string audit \<times> string crecord list" where
  "tall_slot meta cfg row payer_name payer_id notes modifiers_raw i a =
     (let code = strip (row_get row (code_col i));
          raw_code_type = upper (strip (row_get row (type_col i)))
      in if code = [] \<or> raw_code_type = [] then (a, [])
         else case admit_code_type cfg raw_code_type a of
                (None, a1) \<Rightarrow> (a1, [])
              | (Some normalized_code_type, a1) \<Rightarrow>
                  (let output_row = tall_output_row meta row code normalized_code_type
                                      payer_name payer_id notes modifiers_raw
                   in (a1\<lparr>FIELD_PRESENCE_LOG :=
                             log_presence str_truthy HEADERS_tall output_row (FIELD_PRESENCE_LOG a1)\<rparr>,
                       [output_row])))"

definition tall_row ::
  "metadata \<Rightarrow> config \<Rightarrow> row \<Rightarrow> string audit \<Rightarrow> string audit \<times> string crecord list" where
  "tall_row meta cfg row a =
     (let payer = row_get row ''payer_name'';
          (payer_name, payer_id) =
             (case re_search_payer payer of
                None \<Rightarrow> (payer, [])
              | Some (g1, g2) \<Rightarrow> (strip g1, strip g2));
          notes = row_get row ''additional_generic_notes'';
          modifiers_raw = strip (row_get row ''modifiers'');
          (modifier_list, counts) = extract_modifiers (row_get row ''modifiers'') (MODIFIER_COUNTS a);
          a1 = a\<lparr>MODIFIER_COUNTS := counts\<rparr>
      in run_loop (tall_slot meta cfg row payer_name payer_id notes modifiers_raw) [1 ..< 5] a1)"

text \<open>
  The writer of the tall walker:
  \<^verbatim>\<open>out_csv.write(",".join([f'"{output_row.get(col, "").replace("\"", "''")}"' for col in HEADERS]) + "\n")\<close>
  Every cell is wrapped in double quotes after each double quote inside it has been
  replaced by two apostrophes.
\<close>

definition replace_dquote :: "string \<Rightarrow> string" where
  "replace_dquote v = concat (map (\<lambda>c. if c = CHR 0x22 then [CHR 0x27, CHR 0x27] else [c]) v)"

definition tall_cell :: "string crecord \<Rightarrow> string \<Rightarrow> string" where
  "tall_cell output_row col = [CHR 0x22] @ replace_dquote (rec_get output_row col) @ [CHR 0x22]"

definition tall_csv_line :: "string crecord \<Rightarrow> string" where
  "tall_csv_line output_row = join '','' (map (tall_cell output_row) HEADERS_tall) @ [CHR 0x0A]"

text \<open>
  The body is read in chunks of rows; the metadata header (the first two physical rows,
  zipped into a dict) is an input. The result is the written file as its lines, the audit
  report, and the accumulators as the run leaves them.
\<close>

definition tall_chunk ::
  "metadata \<Rightarrow> config \<Rightarrow> row list \<Rightarrow> string audit \<Rightarrow> string audit \<times> string crecord list" where
  "tall_chunk meta cfg chunk a = run_loop (tall_row meta cfg) chunk a"

definition tall_records ::
  "metadata \<Rightarrow> config \<Rightarrow> row list list \<Rightarrow> string audit \<Rightarrow> string audit \<times> string crecord list" where
  "tall_records meta cfg chunks a = run_loop (tall_chunk meta cfg) chunks a"

definition extract_tall_format_csv ::
  "metadata \<Rightarrow> config \<Rightarrow> row \<Rightarrow> row list list \<Rightarrow> string audit
     \<Rightarrow> string list \<times> (string, string, string) devlog \<times> string audit" where
  "extract_tall_format_csv meta cfg mrf_metadata_dict chunks a =
     (let (a1, records) = tall_records meta cfg chunks a;
          out_csv = (join '','' HEADERS_tall @ [CHR 0x0A]) # map tall_csv_line records;
          (log, a2) = build_devlog
             (row_get mrf_metadata_dict ''hospital_location'', row_get mrf_metadata_dict ''hospital_address'')
             (row_get mrf_metadata_dict ''version'', row_get mrf_metadata_dict ''last_updated_on'')
             HEADERS_tall cfg a1
      in (out_csv, log, a2))"

section \<open>Wide-format walker\<close>

definition HEADERS_wide :: "string list" where
  "HEADERS_wide =
    [''hospital name'', ''zip code'', ''code'', ''code type'', ''description'', ''drug unit'', ''drug type'',
     ''insurance payer name'', ''insurance payer id'', ''insurance plan name'',
     ''negotiated price'', ''negotiated percentage'', ''negotiated algorithm'', ''negotiated methodology'',
     ''gross charge'', ''discounted cash price'', ''min price'', ''max price'', ''estimated amount'',
     ''setting'', ''additional notes'', ''modifiers'']"

definition STANDARD_CHARGE_PREFIXES :: "(string \<times> string) list" where
  "STANDARD_CHARGE_PREFIXES =
    [(''negotiated_dollar'', ''negotiated price''),
     (''negotiated_percentage'', ''negotiated percentage''),
     (''negotiated_algorithm'', ''negotiated algorithm''),
     (''estimated_amount'', ''estimated amount''),
     (''methodology'', ''negotiated methodology''),
     (''additional_payer_notes'', ''additional notes'')]"

text \<open>
  \<^verbatim>\<open>
  def parse_column_for_payer(colname):
      parts = [p.strip() for p in colname.split("|")]
      if len(parts) < 3:
          return None, None, None
      return parts[0], parts[1], parts[2]
  \<close>
  \<open>None\<close> stands for the triple of \<^verbatim>\<open>None\<close>s.
\<close>

definition parse_column_for_payer :: "string \<Rightarrow> (string \<times> string \<times> string) option" where
  "parse_column_for_payer colname =
     (let parts = map strip (split_on is_pipe colname)
      in if length parts < 3 then None
         else Some (parts ! 0, parts ! 1, parts ! 2))"

text \<open>
  \<^verbatim>\<open>
  payer_cols = [col for col in all_columns if col.count("|") >= 2 and (
      (col.count("|") == 2 and col.strip().split("|")[0].strip() in STANDARD_CHARGE_PREFIXES) or
      (col.count("|") > 2 and col.strip().split("|")[-1].strip() in STANDARD_CHARGE_PREFIXES))]
  \<close>
  A split is never empty, so \<^verbatim>\<open>[0]\<close> and \<^verbatim>\<open>[-1]\<close> are its first and last piece.
\<close>

definition is_payer_col :: "string \<Rightarrow> bool" where
  "is_payer_col col =
     (count_pipes col \<ge> 2 \<and>
       ((count_pipes col = 2 \<and>
           strip (hd (split_on is_pipe (strip col))) \<in> fst ` set STANDARD_CHARGE_PREFIXES) \<or>
        (count_pipes col > 2 \<and>
           strip (last (split_on is_pipe (strip col))) \<in> fst ` set STANDARD_CHARGE_PREFIXES)))"

definition payer_cols :: "string list \<Rightarrow> string list" where
  "payer_cols all_columns = filter is_payer_col all_columns"

text \<open>
  The group key \<^verbatim>\<open>(code, normalized_code_type, payer_name, plan_name)\<close> and one
  assignment \<^verbatim>\<open>payer_row_map[key][mapped_field] = value\<close>. The column loop only
  writes to \<^verbatim>\<open>payer_row_map\<close>, so the model collects the assignments in the order
  they are executed and applies them to the empty \<^verbatim>\<open>defaultdict(dict)\<close>: an
  assignment to a new key or field appends it, one to an old field replaces its value.
\<close>

type_synonym group_key = "string \<times> string \<times> string \<times> string"

type_synonym prm_write = "group_key \<times> string \<times> string"

type_synonym payer_row_map = "(group_key \<times> string crecord) list"

definition prm_assign :: "prm_write \<Rightarrow> payer_row_map \<Rightarrow> payer_row_map" where
  "prm_assign w m =
     (case w of (key, mapped_field, value) \<Rightarrow>
        AList.update key
          (AList.update mapped_field value (case map_of m key of None \<Rightarrow> [] | Some d \<Rightarrow> d)) m)"

definition wide_slot ::
  "config \<Rightarrow> row \<Rightarrow> string \<Rightarrow> string \<Rightarrow> string \<Rightarrow> string \<Rightarrow> nat \<Rightarrow> string audit
     \<Rightarrow> string audit \<times> prm_write list" where
  "wide_slot cfg row payer_name plan_name mapped_field value i a =
     (let code = strip (row_get row (code_col i));
          raw_code_type = upper (strip (row_get row (type_col i)))
      in if code = [] \<or> raw_code_type = [] then (a, [])
         else case admit_code_type cfg raw_code_type a of
                (None, a1) \<Rightarrow> (a1, [])
              | (Some normalized_code_type, a1) \<Rightarrow>
                  (a1, [((code, normalized_code_type, payer_name, plan_name), mapped_field, value)]))"

text \<open>
  The body of \<^verbatim>\<open>for col in payer_cols\<close>. \<^verbatim>\<open>row[col]\<close> reads a column of the
  frame the row belongs to.
\<close>

definition wide_col :: "config \<Rightarrow> row \<Rightarrow> string \<Rightarrow> string audit \<Rightarrow> string audit \<times> prm_write list" where
  "wide_col cfg row col a =
     (let parts = map strip (split_on is_pipe col)
      in if length parts < 3 then (a, [])
         else let field_key = (if length parts = 3 then parts ! 0 else last parts)
              in case map_of STANDARD_CHARGE_PREFIXES field_key of
                   None \<Rightarrow> (a, [])
                 | Some mapped_field \<Rightarrow>
                     if mapped_field = [] then (a, [])
                     else case parse_column_for_payer col of
                            None \<Rightarrow> (a, [])
                          | Some (_, payer_name, plan_name) \<Rightarrow>
                              if payer_name = [] then (a, [])
                              else let value = row_get row col
                                   in if value = [] then (a, [])
                                      else run_loop
                                             (wide_slot cfg row payer_name plan_name mapped_field value)
                                             [1 ..< 5] a)"

definition wide_record ::
  "metadata \<Rightarrow> row \<Rightarrow> string \<Rightarrow> string \<Rightarrow> group_key \<Rightarrow> string crecord \<Rightarrow> string crecord" where
  "wide_record meta row generic_notes modifiers_raw key field_data =
     (case key of (code, code_type, payer, plan) \<Rightarrow>
       (let additional_payer_note = rec_get field_data ''additional notes'';
            combined_notes = join '', '' (filter (\<lambda>s. s \<noteq> []) [generic_notes, additional_payer_note])
        in [(''hospital name'', hospital_name meta),
            (''zip code'', zip_code meta),
            (''code'', code),
            (''code type'', code_type),
            (''insurance payer name'', payer),
            (''insurance plan name'', plan),
            (''negotiated price'', rec_get field_data ''negotiated price''),
            (''negotiated percentage'', rec_get field_data ''negotiated percentage''),
            (''negotiated algorithm'', rec_get field_data ''negotiated algorithm''),
            (''negotiated methodology'', rec_get field_data ''negotiated methodology''),
            (''estimated amount'', rec_get field_data ''estimated amount''),
            (''drug unit'', row_get row ''drug_unit_of_measurement''),
            (''drug type'', row_get row ''drug_type_of_measurement''),
            (''description'', row_get row ''description''),
            (''gross charge'', row_get row ''standard_charge|gross''),
            (''discounted cash price'', row_get row ''standard_charge|discounted_cash''),
            (''min price'', row_get row ''standard_charge|min''),
            (''max price'', row_get row ''standard_charge|max''),
            (''setting'', row_get row ''setting''),
            (''additional notes'', combined_notes),
            (''modifiers'', modifiers_raw)]))"

text \<open>
  The body of \<^verbatim>\<open>for (code, code_type, payer, plan), field_data in payer_row_map.items()\<close>;
  the presence loop runs over the keys of the record itself.
\<close>

definition wide_group ::
  "metadata \<Rightarrow> row \<Rightarrow> string \<Rightarrow> string \<Rightarrow> group_key \<times> string crecord \<Rightarrow> string audit
     \<Rightarrow> string audit \<times> string crecord list" where
  "wide_group meta row generic_notes modifiers_raw item a =
     (let record = wide_record meta row generic_notes modifiers_raw (fst item) (snd item)
      in (a\<lparr>FIELD_PRESENCE_LOG :=
               log_presence str_truthy (map fst record) record (FIELD_PRESENCE_LOG a)\<rparr>,
          [record]))"

definition wide_row ::
  "metadata \<Rightarrow> config \<Rightarrow> string list \<Rightarrow> row \<Rightarrow> string audit \<Rightarrow> string audit \<times> string crecord list" where
  "wide_row meta cfg pcols row a =
     (let generic_notes = strip (row_get row ''additional_generic_notes'');
          modifiers_raw = strip (row_get row ''modifiers'');
          (modifier_list, counts) = extract_modifiers (row_get row ''modifiers'') (MODIFIER_COUNTS a);
          a1 = a\<lparr>MODIFIER_COUNTS := counts\<rparr>;
          (a2, writes) = run_loop (wide_col cfg row) pcols a1;
          payer_row_map = fold prm_assign writes []
      in run_loop (wide_group meta row generic_notes modifiers_raw) payer_row_map a2)"

definition wide_records ::
  "metadata \<Rightarrow> config \<Rightarrow> string list \<Rightarrow> row list \<Rightarrow> string audit \<Rightarrow> string audit \<times> string crecord list" where
  "wide_records meta cfg all_columns rows a =
     run_loop (wide_row meta cfg (payer_cols all_columns)) rows a"

record wide_extra =
  payer_columns_parsed :: nat
  total_rows_extracted :: nat

text \<open>
  \<^verbatim>\<open>pd.DataFrame(rows, columns=HEADERS).to_csv(output_path, index=False)\<close>: the frame
  has the columns of \<^verbatim>\<open>HEADERS\<close> in that order; a key a record lacks is a missing cell,
  which pandas writes as the empty field. The result is the table handed to pandas (header
  row first), the audit report, and the accumulators as the run leaves them.
\<close>

definition extract_wide_format_csv ::
  "metadata \<Rightarrow> config \<Rightarrow> row \<Rightarrow> string list \<Rightarrow> row list \<Rightarrow> string audit
     \<Rightarrow> string list list \<times> ((string, string, string) devlog \<times> wide_extra) \<times> string audit" where
  "extract_wide_format_csv meta cfg mrf_metadata_dict all_columns body a =
     (let (a1, rows) = wide_records meta cfg all_columns body a;
          extracted_df = HEADERS_wide # map (\<lambda>r. map (rec_get r) HEADERS_wide) rows;
          (log, a2) = build_devlog
             (row_get mrf_metadata_dict ''hospital_location'', row_get mrf_metadata_dict ''hospital_address'')
             (row_get mrf_metadata_dict ''version'', row_get mrf_metadata_dict ''last_updated_on'')
             HEADERS_wide cfg a1
      in (extracted_df,
          (log, \<lparr>payer_columns_parsed = length (payer_cols all_columns),
                  total_rows_extracted = length rows\<rparr>),
          a2))"

section \<open>JSON walker\<close>

text \<open>
  The document is the value \<^verbatim>\<open>json.load\<close> returns. Its containers have the shape the
  walker expects (lists of objects where it iterates, objects where it calls
  \<^verbatim>\<open>.get\<close>); its leaves are JSON scalars: \<^verbatim>\<open>null\<close>, a boolean, an integer or a
  string (numbers with a fraction are outside the model). An object is a map from key to
  value; \<^verbatim>\<open>d.get(k, default)\<close> is the value, or the default for a missing key.
\<close>

datatype jval = JNull | JBool bool | JInt int | JStr string

type_synonym jobj = "string \<rightharpoonup> jval"

definition jget :: "jobj \<Rightarrow> string \<Rightarrow> jval \<Rightarrow> jval" where
  "jget d k dflt = (case d k of None \<Rightarrow> dflt | Some v \<Rightarrow> v)"

text \<open>Python's truth test and \<^verbatim>\<open>x or y\<close> on these values.\<close>

fun py_truthy :: "jval \<Rightarrow> bool" where
  "py_truthy JNull = False"
| "py_truthy (JBool b) = b"
| "py_truthy (JInt i) = (i \<noteq> 0)"
| "py_truthy (JStr s) = (s \<noteq> [])"

definition py_or :: "jval \<Rightarrow> jval \<Rightarrow> jval" where
  "py_or x y = (if py_truthy x then x else y)"

text \<open>\<^verbatim>\<open>str(v)\<close> on these values.\<close>

fun digits :: "nat \<Rightarrow> string" where
  "digits n = (if n < 10 then digit_str n else digits (n div 10) @ digit_str (n mod 10))"

fun py_str :: "jval \<Rightarrow> string" where
  "py_str JNull = ''None''"
| "py_str (JBool b) = (if b then ''True'' else ''False'')"
| "py_str (JInt i) = (if i < 0 then ''-'' @ digits (nat (- i)) else digits (nat i))"
| "py_str (JStr s) = s"

record charge =
  charge_fields :: jobj
  payers_information :: "jobj list"

record item =
  item_fields :: jobj
  code_information :: "jobj list"
  standard_charges :: "charge list"
  drug_information :: jobj

record modifier =
  modifier_fields :: jobj
  modifier_payer_information :: "jobj list"

text \<open>
  \<^verbatim>\<open>standard_charge_information\<close> is a list of items, an object holding the list
  under \<^verbatim>\<open>item\<close>, or anything else (then there are no items).
\<close>

datatype sci = SciList "item list" | SciDict "item list" | SciOther

datatype address_event = HospitalLocation string | HospitalAddress string

record root =
  top_level_keys :: "string list"
  address_events :: "address_event list"
  version :: jval
  last_updated_on :: jval
  standard_charge_information :: sci
  modifier_information :: "modifier list"

definition HEADERS_json :: "string list" where
  "HEADERS_json =
    [''hospital name'', ''zip code'', ''code'', ''code type'', ''description'', ''drug unit'', ''drug type'',
     ''insurance payer name'', ''insurance payer id'', ''insurance plan name'',
     ''negotiated price'', ''negotiated percentage'', ''negotiated algorithm'', ''negotiated methodology'',
     ''gross charge'', ''discounted cash price'', ''min price'', ''max price'', ''estimated amount'',
     ''setting'', ''additional notes'']"

text \<open>
  The streaming pass: every string item of \<^verbatim>\<open>hospital_location\<close> or
  \<^verbatim>\<open>hospital_address\<close>, in document order, overwrites the value found so far, and the
  scan stops as soon as both values are non-empty.
\<close>

fun scan_address :: "address_event list \<Rightarrow> string option \<times> string option \<Rightarrow> string option \<times> string option" where
  "scan_address [] found = found"
| "scan_address (e # es) (loc, addr) =
     (let found = (case e of HospitalLocation v \<Rightarrow> (Some v, addr) | HospitalAddress v \<Rightarrow> (loc, Some v))
      in if (fst found \<noteq> None \<and> fst found \<noteq> Some []) \<and> (snd found \<noteq> None \<and> snd found \<noteq> Some [])
         then found else scan_address es found)"

definition json_row ::
  "metadata \<Rightarrow> jval \<Rightarrow> string \<Rightarrow> jval \<Rightarrow> jobj \<Rightarrow> jobj \<Rightarrow> jobj \<Rightarrow> jval crecord" where
  "json_row meta code normalized_code_type description drug_info charge payer =
     (let gross_charge = jget charge ''gross_charge'' (JStr []);
          discounted_cash = jget charge ''discounted_cash'' (JStr []);
          min_price = jget charge ''minimum'' (JStr []);
          max_price = jget charge ''maximum'' (JStr []);
          setting = jget charge ''setting'' (JStr []);
          estimated_amount = py_or (jget payer ''estimated_amount'' JNull)
                                   (jget drug_info ''estimated_amount'' (JStr []));
          negotiated_price = jget payer ''standard_charge_dollar'' (JStr []);
          negotiated_percentage = jget payer ''standard_charge_percentage'' (JStr []);
          negotiated_algorithm = jget payer ''standard_charge_algorithm'' (JStr []);
          negotiated_methodology = jget payer ''negotiated_methodology'' (JStr [])
      in [(''hospital name'', JStr (hospital_name meta)),
          (''zip code'', JStr (zip_code meta)),
          (''code'', code),
          (''code type'', JStr normalized_code_type),
          (''description'', description),
          (''drug unit'', jget drug_info ''unit'' (JStr [])),
          (''drug type'', jget drug_info ''type'' (JStr [])),
          (''insurance payer name'', jget payer ''payer_name'' (JStr [])),
          (''insurance payer id'', jget payer ''payer_id'' (JStr [])),
          (''insurance plan name'', jget payer ''plan_name'' (JStr [])),
          (''negotiated price'', negotiated_price),
          (''negotiated percentage'', negotiated_percentage),
          (''negotiated algorithm'', negotiated_algorithm),
          (''negotiated methodology'', negotiated_methodology),
          (''gross charge'', gross_charge),
          (''discounted cash price'', discounted_cash),
          (''min price'', min_price),
          (''max price'', max_price),
          (''estimated amount'', estimated_amount),
          (''setting'', setting),
          (''additional notes'', jget payer ''additional_payer_notes'' (JStr []))])"

text \<open>The body of \<^verbatim>\<open>for payer in charge.get("payers_information", [])\<close>.\<close>

definition json_payer ::
  "metadata \<Rightarrow> jval \<Rightarrow> string \<Rightarrow> jval \<Rightarrow> jobj \<Rightarrow> jobj \<Rightarrow> jobj \<Rightarrow> jval audit
     \<Rightarrow> jval audit \<times> jval crecord list" where
  "json_payer meta code normalized_code_type description drug_info charge payer a =
     (let row = json_row meta code normalized_code_type description drug_info charge payer
      in (a\<lparr>FIELD_PRESENCE_LOG := log_presence py_truthy HEADERS_json row (FIELD_PRESENCE_LOG a)\<rparr>,
          [row]))"

definition json_charge ::
  "metadata \<Rightarrow> jval \<Rightarrow> string \<Rightarrow> jval \<Rightarrow> jobj \<Rightarrow> charge \<Rightarrow> jval audit
     \<Rightarrow> jval audit \<times> jval crecord list" where
  "json_charge meta code normalized_code_type description drug_info charge a =
     run_loop (json_payer meta code normalized_code_type description drug_info (charge_fields charge))
       (payers_information charge) a"

text \<open>The body of \<^verbatim>\<open>for code_entry in code_info\<close>.\<close>

definition json_code_entry ::
  "metadata \<Rightarrow> config \<Rightarrow> jval \<Rightarrow> jobj \<Rightarrow> charge list \<Rightarrow> jobj \<Rightarrow> jval audit
     \<Rightarrow> jval audit \<times> jval crecord list" where
  "json_code_entry meta cfg description drug_info charge_entries code_entry a =
     (let raw_code_type = upper (strip (py_str (jget code_entry ''type'' (JStr []))))
      in case admit_code_type cfg raw_code_type a of
           (None, a1) \<Rightarrow> (a1, [])
         | (Some normalized_code_type, a1) \<Rightarrow>
             (let code = jget code_entry ''code'' (JStr [])
              in run_loop (json_charge meta code normalized_code_type description drug_info)
                   charge_entries a1))"

definition json_item :: "metadata \<Rightarrow> config \<Rightarrow> item \<Rightarrow> jval audit \<Rightarrow> jval audit \<times> jval crecord list" where
  "json_item meta cfg item a =
     (let description = jget (item_fields item) ''description'' (JStr []);
          code_info = code_information item;
          charge_entries = standard_charges item;
          drug_info = drug_information item
      in run_loop (json_code_entry meta cfg description drug_info charge_entries) code_info a)"

definition json_modifier_row :: "metadata \<Rightarrow> jval \<Rightarrow> jval \<Rightarrow> jobj \<Rightarrow> jval crecord" where
  "json_modifier_row meta mod_code mod_desc payer =
     [(''hospital name'', JStr (hospital_name meta)),
      (''zip code'', JStr (zip_code meta)),
      (''code'', mod_code),
      (''code type'', JStr ''MODIFIER''),
      (''description'', mod_desc),
      (''insurance payer name'', jget payer ''payer_name'' (JStr [])),
      (''insurance payer id'', JStr []),
      (''insurance plan name'', jget payer ''plan_name'' (JStr [])),
      (''negotiated price'', JStr []),
      (''negotiated percentage'', JStr []),
      (''negotiated algorithm'', JStr []),
      (''negotiated methodology'', JStr []),
      (''gross charge'', JStr []),
      (''discounted cash price'', JStr []),
      (''min price'', JStr []),
      (''max price'', JStr []),
      (''estimated amount'', JStr []),
      (''setting'', JStr []),
      (''additional notes'', jget payer ''description'' (JStr []))]"

definition json_modifier_payer ::
  "metadata \<Rightarrow> jval \<Rightarrow> jval \<Rightarrow> jobj \<Rightarrow> jval audit \<Rightarrow> jval audit \<times> jval crecord list" where
  "json_modifier_payer meta mod_code mod_desc payer a =
     (let row = json_modifier_row meta mod_code mod_desc payer
      in (a\<lparr>FIELD_PRESENCE_LOG := log_presence py_truthy HEADERS_json row (FIELD_PRESENCE_LOG a)\<rparr>,
          [row]))"

text \<open>The body of \<^verbatim>\<open>for mod in root.get("modifier_information", [])\<close>.\<close>

definition json_modifier :: "metadata \<Rightarrow> modifier \<Rightarrow> jval audit \<Rightarrow> jval audit \<times> jval crecord list" where
  "json_modifier meta m a =
     (let mod_code = jget (modifier_fields m) ''code'' (JStr []);
          mod_desc = jget (modifier_fields m) ''description'' (JStr []);
          a1 = a\<lparr>MODIFIER_COUNTS := dd_incr mod_code (MODIFIER_COUNTS a)\<rparr>
      in run_loop (json_modifier_payer meta mod_code mod_desc) (modifier_payer_information m) a1)"

definition json_items :: "root \<Rightarrow> item list" where
  "json_items r = (case standard_charge_information r of
                     SciDict items \<Rightarrow> items | SciList items \<Rightarrow> items | SciOther \<Rightarrow> [])"

definition json_item_records :: "metadata \<Rightarrow> config \<Rightarrow> root \<Rightarrow> jval audit \<Rightarrow> jval audit \<times> jval crecord list" where
  "json_item_records meta cfg r a = run_loop (json_item meta cfg) (json_items r) a"

definition json_modifier_records :: "metadata \<Rightarrow> root \<Rightarrow> jval audit \<Rightarrow> jval audit \<times> jval crecord list" where
  "json_modifier_records meta r a = run_loop (json_modifier meta) (modifier_information r) a"

definition json_records :: "metadata \<Rightarrow> config \<Rightarrow> root \<Rightarrow> jval audit \<Rightarrow> jval audit \<times> jval crecord list" where
  "json_records meta cfg r a =
     (let (a1, rows1) = json_item_records meta cfg r a;
          (a2, rows2) = json_modifier_records meta r a1
      in (a2, rows1 @ rows2))"

definition known_keys_used :: "string set" where
  "known_keys_used = {''standard_charge_information'', ''hospital_location'', ''hospital_address'',
     ''modifier_information''}"

text \<open>
  The rows go to \<^verbatim>\<open>csv.DictWriter(out_csv, fieldnames=HEADERS)\<close> one by one, after
  the header row. The result is the rows in the order written, the audit report with the
  unused top-level keys (a set, which the report lists sorted), and the accumulators as the
  run leaves them.
\<close>

definition parse_json ::
  "metadata \<Rightarrow> config \<Rightarrow> root \<Rightarrow> jval audit
     \<Rightarrow> jval crecord list \<times> ((string option, jval, jval) devlog \<times> string set) \<times> jval audit" where
  "parse_json meta cfg r a =
     (let address = scan_address (address_events r) (None, None);
          raw_top_level_keys = set (top_level_keys r);
          (a1, written) = json_records meta cfg r a;
          (log, a2) = build_devlog address (version r, last_updated_on r) HEADERS_json cfg a1
      in (written, (log, raw_top_level_keys - known_keys_used), a2))"

section \<open>Derived notions used in the statements\<close>

text \<open>What the allow-list test decides, apart from the accumulators it updates.\<close>

definition admitted :: "config \<Rightarrow> string \<Rightarrow> string option" where
  "admitted cfg raw =
     (case code_type_map cfg raw of
        None \<Rightarrow> None
      | Some t \<Rightarrow> if t \<in> set (allowed_code_types cfg) then Some t else None)"

definition code_type_of :: "string crecord \<Rightarrow> string" where
  "code_type_of r = rec_get r ''code type''"

definition json_code_type :: "jval crecord \<Rightarrow> jval" where
  "json_code_type r = jget (map_of r) ''code type'' JNull"

text \<open>The raw token of a \<^verbatim>\<open>code_information\<close> entry, as the walker normalizes it.\<close>

definition raw_code_type_of :: "jobj \<Rightarrow> string" where
  "raw_code_type_of code_entry = upper (strip (py_str (jget code_entry ''type'' (JStr []))))"

text \<open>
  The code slots of a row that pass the blank test and the allow-list, as (code, canonical
  type) pairs in slot order.
\<close>

definition slot_pair :: "config \<Rightarrow> row \<Rightarrow> nat \<Rightarrow> (string \<times> string) list" where
  "slot_pair cfg row i =
     (let code = strip (row_get row (code_col i));
          raw = upper (strip (row_get row (type_col i)))
      in if code = [] \<or> raw = [] then []
         else case code_type_map cfg raw of
                None \<Rightarrow> []
              | Some t \<Rightarrow> if t \<in> set (allowed_code_types cfg) then [(code, t)] else [])"

definition admitted_slots :: "config \<Rightarrow> row \<Rightarrow> (string \<times> string) list" where
  "admitted_slots cfg row = concat (map (slot_pair cfg row) [1 ..< 5])"

definition key_type :: "group_key \<Rightarrow> string" where
  "key_type key = fst (snd key)"

text \<open>The group key an emitted wide record carries, and the fields filled from the group map.\<close>

definition group_key_of :: "string crecord \<Rightarrow> group_key" where
  "group_key_of r = (rec_get r ''code'', rec_get r ''code type'',
                     rec_get r ''insurance payer name'', rec_get r ''insurance plan name'')"

definition pivoted_fields :: "string list" where
  "pivoted_fields = [''negotiated price'', ''negotiated percentage'', ''negotiated algorithm'',
                     ''negotiated methodology'', ''estimated amount'']"

text \<open>The group key of a wide record with its negotiated price and methodology.\<close>

definition record_view :: "string crecord \<Rightarrow> group_key \<times> string \<times> string" where
  "record_view r = (group_key_of r, rec_get r ''negotiated price'', rec_get r ''negotiated methodology'')"

text \<open>What the guards of the column loop let through: payer, plan, canonical field, value.\<close>

definition wide_col_target :: "row \<Rightarrow> string \<Rightarrow> (string \<times> string \<times> string \<times> string) option" where
  "wide_col_target row col =
     (let parts = map strip (split_on is_pipe col)
      in if length parts < 3 then None
         else case map_of STANDARD_CHARGE_PREFIXES (if length parts = 3 then parts ! 0 else last parts) of
                None \<Rightarrow> None
              | Some mapped_field \<Rightarrow>
                  if mapped_field = [] \<or> parts ! 1 = [] \<or> row_get row col = [] then None
                  else Some (parts ! 1, parts ! 2, mapped_field, row_get row col))"

text \<open>The assignments of one row, in the order the column loop makes them.\<close>

definition wide_writes :: "config \<Rightarrow> string list \<Rightarrow> row \<Rightarrow> prm_write list" where
  "wide_writes cfg pcols row = snd (run_loop (wide_col cfg row) pcols audit_init)"

text \<open>The value of the latest assignment to a field of a group, if any was made; the empty
  string stands for none in a record.\<close>

definition last_write :: "prm_write list \<Rightarrow> group_key \<Rightarrow> string \<Rightarrow> string option" where
  "last_write writes key field = map_of (rev (map (\<lambda>w. ((fst w, fst (snd w)), snd (snd w))) writes)) (key, field)"

definition written_value :: "prm_write list \<Rightarrow> group_key \<Rightarrow> string \<Rightarrow> string" where
  "written_value writes key field = (case last_write writes key field of None \<Rightarrow> [] | Some v \<Rightarrow> v)"

definition prm_lookup :: "payer_row_map \<Rightarrow> group_key \<Rightarrow> string \<Rightarrow> string option" where
  "prm_lookup m key field = (case map_of m key of None \<Rightarrow> None | Some d \<Rightarrow> map_of d field)"

text \<open>The audit report of a run.\<close>

definition tall_log :: "metadata \<Rightarrow> config \<Rightarrow> row \<Rightarrow> row list list \<Rightarrow> string audit \<Rightarrow> (string, string, string) devlog" where
  "tall_log meta cfg mrf chunks a = fst (snd (extract_tall_format_csv meta cfg mrf chunks a))"

definition wide_log ::
  "metadata \<Rightarrow> config \<Rightarrow> row \<Rightarrow> string list \<Rightarrow> row list \<Rightarrow> string audit \<Rightarrow> (string, string, string) devlog" where
  "wide_log meta cfg mrf all_columns body a =
     fst (fst (snd (extract_wide_format_csv meta cfg mrf all_columns body a)))"

definition json_log :: "metadata \<Rightarrow> config \<Rightarrow> root \<Rightarrow> jval audit \<Rightarrow> (string option, jval, jval) devlog" where
  "json_log meta cfg r a = fst (fst (snd (parse_json meta cfg r a)))"

text \<open>The accumulators as a run leaves them for the next run in the same process.\<close>

definition tall_after :: "metadata \<Rightarrow> config \<Rightarrow> row \<Rightarrow> row list list \<Rightarrow> string audit \<Rightarrow> string audit" where
  "tall_after meta cfg mrf chunks a = snd (snd (extract_tall_format_csv meta cfg mrf chunks a))"

definition wide_after ::
  "metadata \<Rightarrow> config \<Rightarrow> row \<Rightarrow> string list \<Rightarrow> row list \<Rightarrow> string audit \<Rightarrow> string audit" where
  "wide_after meta cfg mrf all_columns body a =
     snd (snd (extract_wide_format_csv meta cfg mrf all_columns body a))"

definition json_after :: "metadata \<Rightarrow> config \<Rightarrow> root \<Rightarrow> jval audit \<Rightarrow> jval audit" where
  "json_after meta cfg r a = snd (snd (parse_json meta cfg r a))"

text \<open>
  The segments of a payer column as the column loop reads them, and the assignments a
  selected payer column makes for a row: none when its payer segment or its cell is empty,
  otherwise one per admitted code slot.
\<close>

definition col_parts :: "string \<Rightarrow> string list" where
  "col_parts col = map strip (split_on is_pipe col)"

definition payer_segment :: "string \<Rightarrow> string" where
  "payer_segment col = col_parts col ! 1"

definition plan_segment :: "string \<Rightarrow> string" where
  "plan_segment col = col_parts col ! 2"

definition canonical_field :: "string \<Rightarrow> string" where
  "canonical_field col =
     (case map_of STANDARD_CHARGE_PREFIXES
             (if length (col_parts col) = 3 then col_parts col ! 0 else last (col_parts col)) of
        None \<Rightarrow> []
      | Some mapped_field \<Rightarrow> mapped_field)"

definition column_writes :: "config \<Rightarrow> row \<Rightarrow> string \<Rightarrow> prm_write list" where
  "column_writes cfg row col =
     (if payer_segment col = [] \<or> row_get row col = [] then []
      else map (\<lambda>ct. ((fst ct, snd ct, payer_segment col, plan_segment col),
                       canonical_field col, row_get row col))
             (admitted_slots cfg row))"

text \<open>
  The combined notes as the specification words them: the generic note and the payer note,
  both non-empty parts joined by a comma and a blank, empty parts omitted.
\<close>

definition spec_combined_notes :: "string \<Rightarrow> string \<Rightarrow> string" where
  "spec_combined_notes generic_notes payer_note =
     (if generic_notes = [] then payer_note
      else if payer_note = [] then generic_notes
      else generic_notes @ [CHR '','', CHR '' ''] @ payer_note)"

section \<open>Example inputs\<close>

definition ex_meta :: metadata where
  "ex_meta = \<lparr>hospital_name = ''General'', zip_code = ''02115''\<rparr>"

definition ex_cfg :: config where
  "ex_cfg = \<lparr>allowed_code_types = [''CPT''], code_type_map = [''CPT'' \<mapsto> ''CPT'']\<rparr>"

text \<open>A document with no line item and one modifier that has one payer entry.\<close>

definition ex_modifier_doc :: root where
  "ex_modifier_doc = \<lparr>top_level_keys = [''modifier_information''], address_events = [],
     version = JNull, last_updated_on = JNull, standard_charge_information = SciList [],
     modifier_information =
       [\<lparr>modifier_fields = [''code'' \<mapsto> JStr ''25'', ''description'' \<mapsto> JStr ''Significant service''],
         modifier_payer_information = [[''payer_name'' \<mapsto> JStr ''Aetna'', ''plan_name'' \<mapsto> JStr ''PPO'']]\<rparr>]\<rparr>"

text \<open>
  A document with one line item: one code entry of an allowed type, one charge entry with
  two payer entries, the first with \<^verbatim>\<open>"estimated_amount": 0\<close>, and drug information
  with \<^verbatim>\<open>"estimated_amount": 12\<close>.
\<close>

definition ex_payer_zero :: jobj where
  "ex_payer_zero = [''payer_name'' \<mapsto> JStr ''Aetna'', ''estimated_amount'' \<mapsto> JInt 0]"

definition ex_payer_plain :: jobj where
  "ex_payer_plain = [''payer_name'' \<mapsto> JStr ''Cigna'']"

definition ex_item_doc :: root where
  "ex_item_doc = \<lparr>top_level_keys = [''standard_charge_information''], address_events = [],
     version = JStr ''2.0.0'', last_updated_on = JNull,
     standard_charge_information = SciList
       [\<lparr>item_fields = [''description'' \<mapsto> JStr ''Office visit''],
         code_information = [[''code'' \<mapsto> JStr ''99213'', ''type'' \<mapsto> JStr ''cpt'']],
         standard_charges = [\<lparr>charge_fields = [''setting'' \<mapsto> JStr ''outpatient''],
                               payers_information = [ex_payer_zero, ex_payer_plain]\<rparr>],
         drug_information = [''estimated_amount'' \<mapsto> JInt 12]\<rparr>],
     modifier_information = []\<rparr>"

text \<open>
  A tall body row with one code slot of an allowed type and the description
  \<^verbatim>\<open>5" splint\<close>.
\<close>

definition ex_tall_row :: row where
  "ex_tall_row = [''code|1'' \<mapsto> ''99213'', ''code|1|type'' \<mapsto> ''CPT'',
                  ''description'' \<mapsto> ''5'' @ [CHR 0x22] @ '' splint'']"

text \<open>
  A wide row whose payer columns put the field key in the second segment, before payer
  and plan, and the same row with the field key in the last segment.
\<close>

definition ex_claim_columns :: "string list" where
  "ex_claim_columns = [''code|1'', ''code|1|type'',
     ''standard_charge|negotiated_dollar|PayerA|PlanA'', ''standard_charge|methodology|PayerA|PlanA'']"

definition ex_claim_row :: row where
  "ex_claim_row = [''code|1'' \<mapsto> ''99213'', ''code|1|type'' \<mapsto> ''CPT'',
     ''standard_charge|negotiated_dollar|PayerA|PlanA'' \<mapsto> ''100'',
     ''standard_charge|methodology|PayerA|PlanA'' \<mapsto> ''case rate'']"

definition ex_wide_columns :: "string list" where
  "ex_wide_columns = [''code|1'', ''code|1|type'',
     ''standard_charge|PayerA|PlanA|negotiated_dollar'', ''standard_charge|PayerA|PlanA|methodology'']"

definition ex_wide_row :: row where
  "ex_wide_row = [''code|1'' \<mapsto> ''99213'', ''code|1|type'' \<mapsto> ''CPT'',
     ''standard_charge|PayerA|PlanA|negotiated_dollar'' \<mapsto> ''100'',
     ''standard_charge|PayerA|PlanA|methodology'' \<mapsto> ''case rate'']"

text \<open>
  A wide row in which two payer columns name the same payer, plan and field: the
  three-segment column comes after the four-segment one.
\<close>

definition ex_dup_columns :: "string list" where
  "ex_dup_columns = [''code|1'', ''code|1|type'',
     ''standard_charge|PayerA|PlanA|negotiated_dollar'', ''negotiated_dollar|PayerA|PlanA'']"

definition ex_dup_row :: row where
  "ex_dup_row = [''code|1'' \<mapsto> ''99213'', ''code|1|type'' \<mapsto> ''CPT'',
     ''standard_charge|PayerA|PlanA|negotiated_dollar'' \<mapsto> ''100'',
     ''negotiated_dollar|PayerA|PlanA'' \<mapsto> ''7'']"

text \<open>
  A wide row whose two payer columns are selected (four segments, field key last) but have
  an empty payer segment.
\<close>

definition ex_nopayer_columns :: "string list" where
  "ex_nopayer_columns = [''code|1'', ''code|1|type'',
     ''standard_charge||PlanA|negotiated_dollar'', ''standard_charge||PlanA|methodology'']"

definition ex_nopayer_row :: row where
  "ex_nopayer_row = [''code|1'' \<mapsto> ''99213'', ''code|1|type'' \<mapsto> ''CPT'',
     ''standard_charge||PlanA|negotiated_dollar'' \<mapsto> ''100'',
     ''standard_charge||PlanA|methodology'' \<mapsto> ''case rate'']"


section \<open>Lemmas on the helpers\<close>

lemma split_on_nonempty: "split_on d s \<noteq> []"
  by (induction s) (auto simp: Let_def)

lemma dd_get_incr: "dd_get (dd_incr k d) k' = dd_get d k' + (if k' = k then 1 else 0)"
  by (induction d) (auto simp: dd_get_def)

lemma dd_get_fold_incr: "dd_get (fold dd_incr ks d) k = dd_get d k + count_list ks k"
  by (induction ks arbitrary: d) (auto simp: dd_get_incr)

lemma strip_space_Cons: "is_space c \<Longrightarrow> strip (c # s) = strip s"
  by (simp add: strip_def)

lemma strip_space_snoc: "is_space c \<Longrightarrow> strip (s @ [c]) = strip s"
proof (induction s)
  case Nil
  then show ?case by (simp add: strip_def)
next
  case (Cons a s)
  show ?case
  proof (cases "is_space a")
    case True
    with Cons show ?thesis by (simp add: strip_space_Cons)
  next
    case False
    with Cons.prems show ?thesis by (simp add: strip_def)
  qed
qed

lemma map_strip_split_Cons:
  assumes "is_space c" "\<not> d c"
  shows "map strip (split_on d (c # s)) = map strip (split_on d s)"
proof -
  obtain p ps where r: "split_on d s = p # ps"
    using split_on_nonempty [of d s] by (cases "split_on d s") auto
  with assms show ?thesis by (simp add: strip_space_Cons)
qed

lemma split_on_snoc:
  "\<not> d c \<Longrightarrow> split_on d (s @ [c]) = butlast (split_on d s) @ [last (split_on d s) @ [c]]"
proof (induction s)
  case Nil
  then show ?case by simp
next
  case (Cons a s)
  obtain p ps where r: "split_on d s = p # ps"
    using split_on_nonempty [of d s] by (cases "split_on d s") auto
  with Cons show ?case by (cases ps) (auto simp: Let_def)
qed

lemma map_strip_split_snoc:
  assumes "is_space c" "\<not> d c"
  shows "map strip (split_on d (s @ [c])) = map strip (split_on d s)"
proof -
  have "map strip (split_on d s) = map strip (butlast (split_on d s) @ [last (split_on d s)])"
    using split_on_nonempty [of d s] by simp
  with assms show ?thesis by (simp add: split_on_snoc strip_space_snoc)
qed

lemma map_strip_split_dropWhile:
  assumes "\<And>c. d c \<Longrightarrow> \<not> is_space c"
  shows "map strip (split_on d (dropWhile is_space s)) = map strip (split_on d s)"
proof (induction s)
  case Nil
  show ?case by simp
next
  case (Cons a s)
  show ?case
  proof (cases "is_space a")
    case True
    with assms have "\<not> d a" by blast
    from True \<open>\<not> d a\<close> have "map strip (split_on d (a # s)) = map strip (split_on d s)"
      by (rule map_strip_split_Cons)
    with True Cons show ?thesis by simp
  next
    case False
    then show ?thesis by simp
  qed
qed

lemma map_strip_split_rev_dropWhile:
  assumes "\<And>c. d c \<Longrightarrow> \<not> is_space c"
  shows "map strip (split_on d (rev (dropWhile is_space (rev s)))) = map strip (split_on d s)"
proof (induction s rule: rev_induct)
  case Nil
  show ?case by simp
next
  case (snoc a s)
  show ?case
  proof (cases "is_space a")
    case True
    with assms have "\<not> d a" by blast
    with True snoc show ?thesis by (simp add: map_strip_split_snoc)
  next
    case False
    then show ?thesis by simp
  qed
qed

lemma map_strip_split_strip:
  assumes "\<And>c. d c \<Longrightarrow> \<not> is_space c"
  shows "map strip (split_on d (strip s)) = map strip (split_on d s)"
proof -
  have "map strip (split_on d (strip s)) = map strip (split_on d (dropWhile is_space s))"
    unfolding strip_def [of s] by (rule map_strip_split_rev_dropWhile [OF assms])
  also have "\<dots> = map strip (split_on d s)"
    by (rule map_strip_split_dropWhile [OF assms])
  finally show ?thesis .
qed

lemma mod_delim_not_space: "is_mod_delim c \<Longrightarrow> \<not> is_space c"
  by (auto simp: is_mod_delim_def is_space_def)

lemma modifier_list_spec: "modifier_list (strip cell) = spec_modifier_tokens cell"
proof -
  have "modifier_list (strip cell) =
      filter (\<lambda>t. t \<noteq> []) (map strip (split_on is_mod_delim (strip cell)))"
    by (simp add: modifier_list_def filter_map comp_def)
  then show ?thesis
    by (simp only: spec_modifier_tokens_def map_strip_split_strip [OF mod_delim_not_space])
qed

section \<open>Lemmas on loops and accumulators\<close>

lemma run_loop_all:
  assumes "\<And>x s. list_all P (snd (body x s))"
  shows "list_all P (snd (run_loop body xs s))"
proof (induction xs arbitrary: s)
  case Nil
  show ?case by simp
next
  case (Cons x xs)
  from assms [of x s] Cons [of "fst (body x s)"] show ?case
    by (simp add: split_beta)
qed

lemma run_loop_count:
  fixes g :: "'s \<Rightarrow> nat"
  assumes "\<And>x s. g (fst (body x s)) = g s + length (filter Q (snd (body x s)))"
  shows "g (fst (run_loop body xs s)) = g s + length (filter Q (snd (run_loop body xs s)))"
proof (induction xs arbitrary: s)
  case Nil
  show ?case by simp
next
  case (Cons x xs)
  from assms [of x s] Cons [of "fst (body x s)"] show ?case
    by (simp add: split_beta)
qed

lemma run_loop_sum:
  fixes g :: "'s \<Rightarrow> nat"
  assumes "\<And>x s. g (fst (body x s)) = g s + w x"
  shows "g (fst (run_loop body xs s)) = g s + sum_list (map w xs)"
proof (induction xs arbitrary: s)
  case Nil
  show ?case by simp
next
  case (Cons x xs)
  from assms [of x s] Cons [of "fst (body x s)"] show ?case
    by (simp add: split_beta)
qed

lemma run_loop_keep:
  assumes "\<And>x s. g (fst (body x s)) = g s"
  shows "g (fst (run_loop body xs s)) = g s"
proof (induction xs arbitrary: s)
  case Nil
  show ?case by simp
next
  case (Cons x xs)
  from assms [of x s] Cons [of "fst (body x s)"] show ?case
    by (simp add: split_beta)
qed

lemma run_loop_out_indep:
  assumes "\<And>x s s'. snd (body x s) = snd (body x s')"
  shows "snd (run_loop body xs s) = snd (run_loop body xs s')"
proof (induction xs arbitrary: s s')
  case Nil
  show ?case by simp
next
  case (Cons x xs)
  from assms [of x s s'] Cons [of "fst (body x s)" "fst (body x s')"] show ?case
    by (simp add: split_beta)
qed

lemma dd_get_touch: "dd_get (dd_touch k d) k' = dd_get d k'"
  by (induction d) (auto simp: dd_get_def)

lemma dd_get_fold_touch: "dd_get (fold dd_touch ks d) k = dd_get d k"
  by (induction ks arbitrary: d) (auto simp: dd_get_touch)

lemma dd_get_log_presence_gen:
  "dd_get (log_presence truthy keys r log) f
     = dd_get log f + length (filter (\<lambda>k. k = f \<and> field_truthy truthy r k) keys)"
  unfolding log_presence_def
  by (induction keys arbitrary: log) (auto simp: dd_get_incr)

lemma length_filter_eq_distinct:
  "distinct keys \<Longrightarrow> length (filter (\<lambda>k. k = f \<and> P k) keys) = (if f \<in> set keys \<and> P f then 1 else 0)"
  by (induction keys) auto

lemma dd_get_log_presence:
  assumes "distinct keys"
  shows "dd_get (log_presence truthy keys r log) f
     = dd_get log f + (if f \<in> set keys \<and> field_truthy truthy r f then 1 else 0)"
  by (simp only: dd_get_log_presence_gen length_filter_eq_distinct [OF assms])

lemma admit_fst: "fst (admit_code_type cfg raw a) = admitted cfg raw"
  by (simp add: admit_code_type_def admitted_def Let_def split: option.splits)

lemma admitted_allowed: "admitted cfg raw = Some t \<Longrightarrow> t \<in> set (allowed_code_types cfg)"
  by (auto simp: admitted_def split: option.splits if_splits)

lemma admit_presence:
  "dd_get (CODE_TYPE_PRESENCE (snd (admit_code_type cfg raw a))) t
     = dd_get (CODE_TYPE_PRESENCE a) t + (if admitted cfg raw = Some t then 1 else 0)"
  by (auto simp: admit_code_type_def admitted_def Let_def dd_get_incr split: option.splits)

lemma admit_field_log:
  "FIELD_PRESENCE_LOG (snd (admit_code_type cfg raw a)) = FIELD_PRESENCE_LOG a"
  by (simp add: admit_code_type_def Let_def split: option.splits)

lemma distinct_HEADERS_tall: "distinct HEADERS_tall"
  by (simp add: HEADERS_tall_def)

section \<open>Lemmas on the tall walker\<close>

lemma code_type_tall_output_row:
  "code_type_of (tall_output_row meta row code t pn pid notes mods) = t"
  by (simp add: code_type_of_def rec_get_def tall_output_row_def)

lemma tall_slot_out:
  "snd (tall_slot meta cfg row pn pid notes mods i a) =
     (let code = strip (row_get row (code_col i));
          raw = upper (strip (row_get row (type_col i)))
      in if code = [] \<or> raw = [] then []
         else case admitted cfg raw of
                None \<Rightarrow> []
              | Some t \<Rightarrow> [tall_output_row meta row code t pn pid notes mods])"
proof -
  let ?raw = "upper (strip (row_get row (type_col i)))"
  have e: "admit_code_type cfg ?raw a = (admitted cfg ?raw, snd (admit_code_type cfg ?raw a))"
    by (metis admit_fst prod.collapse)
  show ?thesis
    by (cases "admitted cfg ?raw") (use e in \<open>auto simp: tall_slot_def Let_def split: prod.splits\<close>)
qed

lemma tall_slot_allowed:
  "list_all (\<lambda>r. code_type_of r \<in> set (allowed_code_types cfg))
     (snd (tall_slot meta cfg row pn pid notes mods i a))"
  by (auto simp: tall_slot_out Let_def code_type_tall_output_row
      split: option.splits dest: admitted_allowed)

lemma tall_slot_presence:
  "dd_get (CODE_TYPE_PRESENCE (fst (tall_slot meta cfg row pn pid notes mods i a))) t
     = dd_get (CODE_TYPE_PRESENCE a) t
       + length (filter (\<lambda>r. code_type_of r = t) (snd (tall_slot meta cfg row pn pid notes mods i a)))"
proof -
  let ?raw = "upper (strip (row_get row (type_col i)))"
  have e: "admit_code_type cfg ?raw a = (admitted cfg ?raw, snd (admit_code_type cfg ?raw a))"
    by (metis admit_fst prod.collapse)
  show ?thesis
    using admit_presence [of cfg ?raw a t]
    by (cases "admitted cfg ?raw")
       (use e in \<open>auto simp: tall_slot_def Let_def code_type_tall_output_row split: prod.splits\<close>)
qed

lemma tall_slot_field_log:
  "dd_get (FIELD_PRESENCE_LOG (fst (tall_slot meta cfg row pn pid notes mods i a))) f
     = dd_get (FIELD_PRESENCE_LOG a) f
       + length (filter (\<lambda>r. f \<in> set HEADERS_tall \<and> field_truthy str_truthy r f)
                  (snd (tall_slot meta cfg row pn pid notes mods i a)))"
proof -
  let ?raw = "upper (strip (row_get row (type_col i)))"
  have e: "admit_code_type cfg ?raw a = (admitted cfg ?raw, snd (admit_code_type cfg ?raw a))"
    by (metis admit_fst prod.collapse)
  show ?thesis
    using admit_field_log [of cfg ?raw a]
    by (cases "admitted cfg ?raw")
       (use e in \<open>auto simp: tall_slot_def Let_def dd_get_log_presence [OF distinct_HEADERS_tall]
           split: prod.splits\<close>)
qed

lemma tall_row_allowed:
  "list_all (\<lambda>r. code_type_of r \<in> set (allowed_code_types cfg)) (snd (tall_row meta cfg row a))"
  unfolding tall_row_def Let_def split_beta
  by (rule run_loop_all) (rule tall_slot_allowed)

lemma tall_row_presence:
  "dd_get (CODE_TYPE_PRESENCE (fst (tall_row meta cfg row a))) t
     = dd_get (CODE_TYPE_PRESENCE a) t
       + length (filter (\<lambda>r. code_type_of r = t) (snd (tall_row meta cfg row a)))"
  unfolding tall_row_def Let_def split_beta
  by (subst run_loop_count [where Q = "\<lambda>r. code_type_of r = t"
        and g = "\<lambda>s. dd_get (CODE_TYPE_PRESENCE s) t"])
     (simp_all add: tall_slot_presence)

lemma tall_row_field_log:
  "dd_get (FIELD_PRESENCE_LOG (fst (tall_row meta cfg row a))) f
     = dd_get (FIELD_PRESENCE_LOG a) f
       + length (filter (\<lambda>r. f \<in> set HEADERS_tall \<and> field_truthy str_truthy r f)
                  (snd (tall_row meta cfg row a)))"
  unfolding tall_row_def Let_def split_beta
  by (subst run_loop_count [where Q = "\<lambda>r. f \<in> set HEADERS_tall \<and> field_truthy str_truthy r f"
        and g = "\<lambda>s. dd_get (FIELD_PRESENCE_LOG s) f"])
     (simp_all add: tall_slot_field_log)

lemma tall_row_out_indep: "snd (tall_row meta cfg row a) = snd (tall_row meta cfg row a')"
  unfolding tall_row_def Let_def split_beta
  by (rule run_loop_out_indep) (simp add: tall_slot_out)

lemma tall_records_allowed:
  "list_all (\<lambda>r. code_type_of r \<in> set (allowed_code_types cfg)) (snd (tall_records meta cfg chunks a))"
  unfolding tall_records_def tall_chunk_def
  by (intro run_loop_all tall_row_allowed)

lemma tall_records_presence:
  "dd_get (CODE_TYPE_PRESENCE (fst (tall_records meta cfg chunks a))) t
     = dd_get (CODE_TYPE_PRESENCE a) t
       + length (filter (\<lambda>r. code_type_of r = t) (snd (tall_records meta cfg chunks a)))"
  unfolding tall_records_def tall_chunk_def
  by (intro run_loop_count [where g = "\<lambda>s. dd_get (CODE_TYPE_PRESENCE s) t"] tall_row_presence)

lemma tall_records_field_log:
  "dd_get (FIELD_PRESENCE_LOG (fst (tall_records meta cfg chunks a))) f
     = dd_get (FIELD_PRESENCE_LOG a) f
       + length (filter (\<lambda>r. f \<in> set HEADERS_tall \<and> field_truthy str_truthy r f)
                  (snd (tall_records meta cfg chunks a)))"
  unfolding tall_records_def tall_chunk_def
  by (intro run_loop_count [where g = "\<lambda>s. dd_get (FIELD_PRESENCE_LOG s) f"] tall_row_field_log)

lemma tall_records_out_indep:
  "snd (tall_records meta cfg chunks a) = snd (tall_records meta cfg chunks a')"
  unfolding tall_records_def tall_chunk_def
  by (intro run_loop_out_indep tall_row_out_indep)

section \<open>Lemmas on the wide walker\<close>

lemma run_loop_out_map:
  assumes "\<And>x s. snd (body x s) = [h x]"
  shows "snd (run_loop body xs s) = map h xs"
proof (induction xs arbitrary: s)
  case Nil
  show ?case by simp
next
  case (Cons x xs)
  from assms [of x s] Cons [of "fst (body x s)"] show ?case
    by (simp add: split_beta)
qed

lemma prm_lookup_assign:
  "prm_lookup (prm_assign (k', f', v) m) k f = (if k = k' \<and> f = f' then Some v else prm_lookup m k f)"
  by (auto simp: prm_lookup_def prm_assign_def update_conv' split: option.splits)

lemma prm_lookup_fold:
  "prm_lookup (fold prm_assign ws m) k f
     = (case last_write ws k f of None \<Rightarrow> prm_lookup m k f | Some v \<Rightarrow> Some v)"
proof (induction ws arbitrary: m)
  case Nil
  show ?case by (simp add: last_write_def)
next
  case (Cons w ws)
  obtain k' f' v where w: "w = (k', f', v)" by (cases w) auto
  show ?case
    by (auto simp: Cons w prm_lookup_assign last_write_def map_add_def split: option.splits)
qed

lemma prm_keys_assign: "fst ` set (prm_assign w m) = insert (fst w) (fst ` set m)"
  by (cases w) (simp add: prm_assign_def dom_update)

lemma prm_keys_fold: "fst ` set (fold prm_assign ws m) = fst ` set m \<union> fst ` set ws"
  by (induction ws arbitrary: m) (auto simp: prm_keys_assign)

lemma prm_distinct_assign: "distinct (map fst m) \<Longrightarrow> distinct (map fst (prm_assign w m))"
  by (cases w) (simp add: prm_assign_def distinct_update)

lemma prm_distinct_fold: "distinct (map fst m) \<Longrightarrow> distinct (map fst (fold prm_assign ws m))"
  by (induction ws arbitrary: m) (auto simp: prm_distinct_assign)

lemma wide_slot_out:
  "snd (wide_slot cfg row pn pl mf v i a) =
     (let code = strip (row_get row (code_col i));
          raw = upper (strip (row_get row (type_col i)))
      in if code = [] \<or> raw = [] then []
         else case admitted cfg raw of
                None \<Rightarrow> []
              | Some t \<Rightarrow> [((code, t, pn, pl), mf, v)])"
proof -
  let ?raw = "upper (strip (row_get row (type_col i)))"
  have e: "admit_code_type cfg ?raw a = (admitted cfg ?raw, snd (admit_code_type cfg ?raw a))"
    by (metis admit_fst prod.collapse)
  show ?thesis
    by (cases "admitted cfg ?raw") (use e in \<open>auto simp: wide_slot_def Let_def split: prod.splits\<close>)
qed

lemma wide_slot_allowed:
  "list_all (\<lambda>w. key_type (fst w) \<in> set (allowed_code_types cfg)) (snd (wide_slot cfg row pn pl mf v i a))"
  by (auto simp: wide_slot_out Let_def key_type_def split: option.splits dest: admitted_allowed)

lemma wide_slot_presence:
  "dd_get (CODE_TYPE_PRESENCE (fst (wide_slot cfg row pn pl mf v i a))) t
     = dd_get (CODE_TYPE_PRESENCE a) t
       + length (filter (\<lambda>w. key_type (fst w) = t) (snd (wide_slot cfg row pn pl mf v i a)))"
proof -
  let ?raw = "upper (strip (row_get row (type_col i)))"
  have e: "admit_code_type cfg ?raw a = (admitted cfg ?raw, snd (admit_code_type cfg ?raw a))"
    by (metis admit_fst prod.collapse)
  show ?thesis
    using admit_presence [of cfg ?raw a t]
    by (cases "admitted cfg ?raw")
       (use e in \<open>auto simp: wide_slot_def Let_def key_type_def split: prod.splits\<close>)
qed

lemma wide_slot_field_log:
  "FIELD_PRESENCE_LOG (fst (wide_slot cfg row pn pl mf v i a)) = FIELD_PRESENCE_LOG a"
proof -
  let ?raw = "upper (strip (row_get row (type_col i)))"
  show ?thesis
    using admit_field_log [of cfg ?raw a]
    by (cases "admit_code_type cfg ?raw a") (auto simp: wide_slot_def Let_def split: option.splits)
qed

lemma wide_col_unfold:
  "wide_col cfg row col a =
     (case wide_col_target row col of
        None \<Rightarrow> (a, [])
      | Some (pn, pl, mf, v) \<Rightarrow> run_loop (wide_slot cfg row pn pl mf v) [1 ..< 5] a)"
proof -
  define parts where "parts = map strip (split_on is_pipe col)"
  show ?thesis
    unfolding wide_col_def wide_col_target_def parse_column_for_payer_def Let_def
      parts_def [symmetric]
    by (simp split: option.splits)
qed

lemma wide_col_allowed:
  "list_all (\<lambda>w. key_type (fst w) \<in> set (allowed_code_types cfg)) (snd (wide_col cfg row col a))"
  unfolding wide_col_unfold
  by (auto split: option.splits intro!: run_loop_all wide_slot_allowed)

lemma wide_col_presence:
  "dd_get (CODE_TYPE_PRESENCE (fst (wide_col cfg row col a))) t
     = dd_get (CODE_TYPE_PRESENCE a) t
       + length (filter (\<lambda>w. key_type (fst w) = t) (snd (wide_col cfg row col a)))"
  unfolding wide_col_unfold
  by (auto split: option.splits
      intro!: run_loop_count [where g = "\<lambda>s. dd_get (CODE_TYPE_PRESENCE s) t"] wide_slot_presence)

lemma wide_col_field_log:
  "FIELD_PRESENCE_LOG (fst (wide_col cfg row col a)) = FIELD_PRESENCE_LOG a"
  unfolding wide_col_unfold
  by (auto split: option.splits intro!: run_loop_keep wide_slot_field_log)

lemma wide_col_out_indep: "snd (wide_col cfg row col a) = snd (wide_col cfg row col a')"
  unfolding wide_col_unfold
  by (auto split: option.splits intro!: run_loop_out_indep simp: wide_slot_out)

lemma wide_writes_any: "snd (run_loop (wide_col cfg row) pcols a) = wide_writes cfg pcols row"
  unfolding wide_writes_def by (intro run_loop_out_indep wide_col_out_indep)

lemma wide_writes_allowed:
  "list_all (\<lambda>w. key_type (fst w) \<in> set (allowed_code_types cfg)) (wide_writes cfg pcols row)"
  unfolding wide_writes_def by (intro run_loop_all wide_col_allowed)

lemma wide_group_out:
  "snd (wide_group meta row gn mr item a) = [wide_record meta row gn mr (fst item) (snd item)]"
  by (simp add: wide_group_def Let_def)

lemma wide_row_out:
  "snd (wide_row meta cfg pcols row a) =
     map (\<lambda>item. wide_record meta row (strip (row_get row ''additional_generic_notes''))
                    (strip (row_get row ''modifiers'')) (fst item) (snd item))
       (fold prm_assign (wide_writes cfg pcols row) [])"
  by (simp add: wide_row_def Let_def split_beta run_loop_out_map [OF wide_group_out]
      wide_writes_any)

lemma code_type_wide_record:
  "code_type_of (wide_record meta row gn mr key fd) = key_type key"
  by (cases key) (simp add: code_type_of_def rec_get_def wide_record_def key_type_def Let_def)

lemma wide_row_allowed:
  "list_all (\<lambda>r. code_type_of r \<in> set (allowed_code_types cfg)) (snd (wide_row meta cfg pcols row a))"
proof -
  have "key_type k \<in> set (allowed_code_types cfg)"
    if "k \<in> fst ` set (fold prm_assign (wide_writes cfg pcols row) [])" for k
    using that wide_writes_allowed [of cfg pcols row]
    by (auto simp: prm_keys_fold list_all_iff)
  then show ?thesis
    by (auto simp: wide_row_out list_all_iff code_type_wide_record)
qed

lemma wide_group_presence:
  "CODE_TYPE_PRESENCE (fst (wide_group meta row gn mr item a)) = CODE_TYPE_PRESENCE a"
  by (simp add: wide_group_def Let_def)

lemma wide_row_presence:
  "dd_get (CODE_TYPE_PRESENCE (fst (wide_row meta cfg pcols row a))) t
     = dd_get (CODE_TYPE_PRESENCE a) t
       + length (filter (\<lambda>w. key_type (fst w) = t) (wide_writes cfg pcols row))"
proof -
  let ?a1 = "a\<lparr>MODIFIER_COUNTS := snd (extract_modifiers (row_get row ''modifiers'') (MODIFIER_COUNTS a))\<rparr>"
  have "dd_get (CODE_TYPE_PRESENCE (fst (run_loop (wide_col cfg row) pcols ?a1))) t
      = dd_get (CODE_TYPE_PRESENCE ?a1) t
        + length (filter (\<lambda>w. key_type (fst w) = t) (snd (run_loop (wide_col cfg row) pcols ?a1)))"
    by (intro run_loop_count [where g = "\<lambda>s. dd_get (CODE_TYPE_PRESENCE s) t"] wide_col_presence)
  then show ?thesis
    by (simp add: wide_row_def Let_def split_beta wide_writes_any
        run_loop_keep [where g = CODE_TYPE_PRESENCE, OF wide_group_presence])
qed

lemma distinct_wide_record_keys: "distinct (map fst (wide_record meta row gn mr key fd))"
  by (cases key) (simp add: wide_record_def Let_def)

lemma field_truthy_key: "field_truthy truthy r f \<Longrightarrow> f \<in> fst ` set r"
  by (auto simp: field_truthy_def split: option.splits dest: map_of_SomeD intro: rev_image_eqI)

lemma wide_group_field_log:
  "dd_get (FIELD_PRESENCE_LOG (fst (wide_group meta row gn mr item a))) f
     = dd_get (FIELD_PRESENCE_LOG a) f
       + length (filter (\<lambda>r. field_truthy str_truthy r f) (snd (wide_group meta row gn mr item a)))"
  using field_truthy_key [of str_truthy "wide_record meta row gn mr (fst item) (snd item)" f]
  by (auto simp: wide_group_def Let_def dd_get_log_presence [OF distinct_wide_record_keys])

lemma wide_row_field_log:
  "dd_get (FIELD_PRESENCE_LOG (fst (wide_row meta cfg pcols row a))) f
     = dd_get (FIELD_PRESENCE_LOG a) f
       + length (filter (\<lambda>r. field_truthy str_truthy r f) (snd (wide_row meta cfg pcols row a)))"
proof -
  let ?a1 = "a\<lparr>MODIFIER_COUNTS := snd (extract_modifiers (row_get row ''modifiers'') (MODIFIER_COUNTS a))\<rparr>"
  let ?a2 = "fst (run_loop (wide_col cfg row) pcols ?a1)"
  let ?gn = "strip (row_get row ''additional_generic_notes'')"
  let ?mr = "strip (row_get row ''modifiers'')"
  let ?prm = "fold prm_assign (wide_writes cfg pcols row) []"
  have w: "wide_row meta cfg pcols row a = run_loop (wide_group meta row ?gn ?mr) ?prm ?a2"
    by (simp add: wide_row_def Let_def split_beta wide_writes_any)
  have k: "FIELD_PRESENCE_LOG ?a2 = FIELD_PRESENCE_LOG a"
    by (simp add: run_loop_keep [where g = FIELD_PRESENCE_LOG, OF wide_col_field_log])
  have "dd_get (FIELD_PRESENCE_LOG (fst (run_loop (wide_group meta row ?gn ?mr) ?prm ?a2))) f
      = dd_get (FIELD_PRESENCE_LOG ?a2) f
        + length (filter (\<lambda>r. field_truthy str_truthy r f)
            (snd (run_loop (wide_group meta row ?gn ?mr) ?prm ?a2)))"
    by (intro run_loop_count [where g = "\<lambda>s. dd_get (FIELD_PRESENCE_LOG s) f"] wide_group_field_log)
  with w k show ?thesis by simp
qed

lemma wide_row_out_indep: "snd (wide_row meta cfg pcols row a) = snd (wide_row meta cfg pcols row a')"
  by (simp add: wide_row_out)

lemma length_filter_distinct_le:
  assumes "distinct xs" "set xs \<subseteq> set ys"
  shows "length (filter P xs) \<le> length (filter P ys)"
proof -
  have "length (filter P xs) = card (set (filter P xs))"
    using assms(1) distinct_card [of "filter P xs"] by (simp only: distinct_filter)
  also have "\<dots> \<le> card (set (filter P ys))"
    using assms(2) by (intro card_mono) auto
  also have "\<dots> \<le> length (filter P ys)"
    by (rule card_length)
  finally show ?thesis .
qed

lemma wide_row_records_le_writes:
  "length (filter (\<lambda>r. code_type_of r = t) (snd (wide_row meta cfg pcols row a)))
     \<le> length (filter (\<lambda>w. key_type (fst w) = t) (wide_writes cfg pcols row))"
proof -
  let ?prm = "fold prm_assign (wide_writes cfg pcols row) []"
  have "length (filter (\<lambda>r. code_type_of r = t) (snd (wide_row meta cfg pcols row a)))
      = length (filter (\<lambda>k. key_type k = t) (map fst ?prm))"
    by (simp add: wide_row_out filter_map comp_def code_type_wide_record)
  also have "\<dots> \<le> length (filter (\<lambda>k. key_type k = t) (map fst (wide_writes cfg pcols row)))"
    by (intro length_filter_distinct_le prm_distinct_fold) (simp_all add: prm_keys_fold)
  also have "\<dots> = length (filter (\<lambda>w. key_type (fst w) = t) (wide_writes cfg pcols row))"
    by (simp add: filter_map comp_def)
  finally show ?thesis .
qed

lemma wide_records_allowed:
  "list_all (\<lambda>r. code_type_of r \<in> set (allowed_code_types cfg))
     (snd (wide_records meta cfg all_columns rows a))"
  unfolding wide_records_def by (intro run_loop_all wide_row_allowed)

lemma length_filter_concat:
  "length (filter P (concat xss)) = sum_list (map (\<lambda>xs. length (filter P xs)) xss)"
  by (induction xss) auto

lemma wide_records_presence:
  "dd_get (CODE_TYPE_PRESENCE (fst (wide_records meta cfg all_columns rows a))) t
     = dd_get (CODE_TYPE_PRESENCE a) t
       + length (filter (\<lambda>w. key_type (fst w) = t)
           (concat (map (wide_writes cfg (payer_cols all_columns)) rows)))"
  unfolding wide_records_def length_filter_concat map_map comp_def
  by (intro run_loop_sum [where g = "\<lambda>s. dd_get (CODE_TYPE_PRESENCE s) t"] wide_row_presence)

lemma wide_records_field_log:
  "dd_get (FIELD_PRESENCE_LOG (fst (wide_records meta cfg all_columns rows a))) f
     = dd_get (FIELD_PRESENCE_LOG a) f
       + length (filter (\<lambda>r. field_truthy str_truthy r f)
           (snd (wide_records meta cfg all_columns rows a)))"
  unfolding wide_records_def
  by (intro run_loop_count [where g = "\<lambda>s. dd_get (FIELD_PRESENCE_LOG s) f"] wide_row_field_log)

lemma wide_records_out_indep:
  "snd (wide_records meta cfg all_columns rows a) = snd (wide_records meta cfg all_columns rows a')"
  unfolding wide_records_def by (intro run_loop_out_indep wide_row_out_indep)

section \<open>Lemmas on the JSON walker\<close>

lemma distinct_HEADERS_json: "distinct HEADERS_json"
  by (simp add: HEADERS_json_def)

lemma json_code_type_row: "json_code_type (json_row meta code t d di ch p) = JStr t"
  by (simp add: json_code_type_def jget_def json_row_def Let_def)

lemma json_code_type_modifier_row: "json_code_type (json_modifier_row meta mc md p) = JStr ''MODIFIER''"
  by (simp add: json_code_type_def jget_def json_modifier_row_def)

lemma json_row_keys: "fst ` set (json_row meta code t d di ch p) = set HEADERS_json"
  by (simp add: json_row_def HEADERS_json_def Let_def insert_commute)

lemma json_modifier_row_keys: "fst ` set (json_modifier_row meta mc md p) \<subseteq> set HEADERS_json"
  by (simp add: json_modifier_row_def HEADERS_json_def)

lemma json_payer_out: "snd (json_payer meta code t d di ch p a) = [json_row meta code t d di ch p]"
  by (simp add: json_payer_def Let_def)

lemma json_payer_presence:
  "CODE_TYPE_PRESENCE (fst (json_payer meta code t d di ch p a)) = CODE_TYPE_PRESENCE a"
  by (simp add: json_payer_def Let_def)

lemma json_payer_field_log:
  "dd_get (FIELD_PRESENCE_LOG (fst (json_payer meta code t d di ch p a))) f
     = dd_get (FIELD_PRESENCE_LOG a) f
       + length (filter (\<lambda>r. field_truthy py_truthy r f) (snd (json_payer meta code t d di ch p a)))"
  using field_truthy_key [of py_truthy "json_row meta code t d di ch p" f]
  by (auto simp: json_payer_def Let_def dd_get_log_presence [OF distinct_HEADERS_json] json_row_keys)

lemma json_charge_out:
  "snd (json_charge meta code t d di ch a) = map (json_row meta code t d di (charge_fields ch)) (payers_information ch)"
  unfolding json_charge_def by (rule run_loop_out_map) (rule json_payer_out)

lemma json_charge_presence:
  "CODE_TYPE_PRESENCE (fst (json_charge meta code t d di ch a)) = CODE_TYPE_PRESENCE a"
  unfolding json_charge_def by (intro run_loop_keep json_payer_presence)

lemma json_charge_field_log:
  "dd_get (FIELD_PRESENCE_LOG (fst (json_charge meta code t d di ch a))) f
     = dd_get (FIELD_PRESENCE_LOG a) f
       + length (filter (\<lambda>r. field_truthy py_truthy r f) (snd (json_charge meta code t d di ch a)))"
  unfolding json_charge_def
  by (intro run_loop_count [where g = "\<lambda>s. dd_get (FIELD_PRESENCE_LOG s) f"] json_payer_field_log)

lemma json_code_entry_unfold:
  "json_code_entry meta cfg d di charges ce a =
     (case admitted cfg (raw_code_type_of ce) of
        None \<Rightarrow> (snd (admit_code_type cfg (raw_code_type_of ce) a), [])
      | Some t \<Rightarrow> run_loop (json_charge meta (jget ce ''code'' (JStr [])) t d di) charges
                    (snd (admit_code_type cfg (raw_code_type_of ce) a)))"
proof -
  let ?raw = "raw_code_type_of ce"
  have e: "admit_code_type cfg ?raw a = (admitted cfg ?raw, snd (admit_code_type cfg ?raw a))"
    by (metis admit_fst prod.collapse)
  show ?thesis
    unfolding json_code_entry_def Let_def raw_code_type_of_def [symmetric]
    by (subst e) (simp split: option.splits)
qed

lemma json_code_entry_out:
  "snd (json_code_entry meta cfg d di charges ce a) =
     (case admitted cfg (raw_code_type_of ce) of
        None \<Rightarrow> []
      | Some t \<Rightarrow> concat (map (\<lambda>ch. map (json_row meta (jget ce ''code'' (JStr [])) t d di (charge_fields ch))
                                      (payers_information ch)) charges))"
proof -
  have "snd (run_loop (json_charge meta code t d di) charges s)
      = concat (map (\<lambda>ch. map (json_row meta code t d di (charge_fields ch)) (payers_information ch)) charges)"
    for code t s
    by (induction charges arbitrary: s) (simp_all add: split_beta json_charge_out)
  then show ?thesis
    by (simp add: json_code_entry_unfold split: option.splits)
qed

lemma json_code_entry_allowed:
  "list_all (\<lambda>r. json_code_type r \<in> JStr ` set (allowed_code_types cfg))
     (snd (json_code_entry meta cfg d di charges ce a))"
proof (cases "admitted cfg (raw_code_type_of ce)")
  case None
  then show ?thesis by (simp add: json_code_entry_out)
next
  case (Some t)
  then have "t \<in> set (allowed_code_types cfg)" by (rule admitted_allowed)
  with Some show ?thesis
    by (auto simp: json_code_entry_out list_all_iff json_code_type_row)
qed

lemma json_code_entry_presence:
  "dd_get (CODE_TYPE_PRESENCE (fst (json_code_entry meta cfg d di charges ce a))) t
     = dd_get (CODE_TYPE_PRESENCE a) t + (if admitted cfg (raw_code_type_of ce) = Some t then 1 else 0)"
  using admit_presence [of cfg "raw_code_type_of ce" a t]
  by (auto simp: json_code_entry_unfold
        run_loop_keep [where g = CODE_TYPE_PRESENCE, OF json_charge_presence]
      split: option.splits)

lemma json_code_entry_field_log:
  "dd_get (FIELD_PRESENCE_LOG (fst (json_code_entry meta cfg d di charges ce a))) f
     = dd_get (FIELD_PRESENCE_LOG a) f
       + length (filter (\<lambda>r. field_truthy py_truthy r f) (snd (json_code_entry meta cfg d di charges ce a)))"
proof (cases "admitted cfg (raw_code_type_of ce)")
  case None
  then show ?thesis by (simp add: json_code_entry_unfold admit_field_log)
next
  case (Some t)
  let ?a1 = "snd (admit_code_type cfg (raw_code_type_of ce) a)"
  let ?body = "json_charge meta (jget ce ''code'' (JStr [])) t d di"
  have "dd_get (FIELD_PRESENCE_LOG (fst (run_loop ?body charges ?a1))) f
      = dd_get (FIELD_PRESENCE_LOG ?a1) f
        + length (filter (\<lambda>r. field_truthy py_truthy r f) (snd (run_loop ?body charges ?a1)))"
    by (intro run_loop_count [where g = "\<lambda>s. dd_get (FIELD_PRESENCE_LOG s) f"] json_charge_field_log)
  with Some show ?thesis by (simp add: json_code_entry_unfold admit_field_log)
qed

lemma json_code_entry_out_indep:
  "snd (json_code_entry meta cfg d di charges ce a) = snd (json_code_entry meta cfg d di charges ce a')"
  by (simp add: json_code_entry_out)

lemma json_item_allowed:
  "list_all (\<lambda>r. json_code_type r \<in> JStr ` set (allowed_code_types cfg)) (snd (json_item meta cfg it a))"
  unfolding json_item_def Let_def by (intro run_loop_all json_code_entry_allowed)

lemma sum_list_if_filter:
  "sum_list (map (\<lambda>x. if P x then 1 else 0) xs) = length (filter P xs)"
  by (induction xs) auto

lemma json_item_presence:
  "dd_get (CODE_TYPE_PRESENCE (fst (json_item meta cfg it a))) t
     = dd_get (CODE_TYPE_PRESENCE a) t
       + length (filter (\<lambda>ce. admitted cfg (raw_code_type_of ce) = Some t) (code_information it))"
  unfolding json_item_def Let_def sum_list_if_filter [symmetric]
  by (intro run_loop_sum [where g = "\<lambda>s. dd_get (CODE_TYPE_PRESENCE s) t"] json_code_entry_presence)

lemma json_item_field_log:
  "dd_get (FIELD_PRESENCE_LOG (fst (json_item meta cfg it a))) f
     = dd_get (FIELD_PRESENCE_LOG a) f
       + length (filter (\<lambda>r. field_truthy py_truthy r f) (snd (json_item meta cfg it a)))"
  unfolding json_item_def Let_def
  by (intro run_loop_count [where g = "\<lambda>s. dd_get (FIELD_PRESENCE_LOG s) f"] json_code_entry_field_log)

lemma json_item_out_indep: "snd (json_item meta cfg it a) = snd (json_item meta cfg it a')"
  unfolding json_item_def Let_def by (intro run_loop_out_indep json_code_entry_out_indep)

lemma json_item_records_allowed:
  "list_all (\<lambda>r. json_code_type r \<in> JStr ` set (allowed_code_types cfg))
     (snd (json_item_records meta cfg r a))"
  unfolding json_item_records_def by (intro run_loop_all json_item_allowed)

lemma json_item_records_presence:
  "dd_get (CODE_TYPE_PRESENCE (fst (json_item_records meta cfg r a))) t
     = dd_get (CODE_TYPE_PRESENCE a) t
       + length (filter (\<lambda>ce. admitted cfg (raw_code_type_of ce) = Some t)
           (concat (map code_information (json_items r))))"
  unfolding json_item_records_def length_filter_concat map_map comp_def
  by (intro run_loop_sum [where g = "\<lambda>s. dd_get (CODE_TYPE_PRESENCE s) t"] json_item_presence)

lemma json_item_records_field_log:
  "dd_get (FIELD_PRESENCE_LOG (fst (json_item_records meta cfg r a))) f
     = dd_get (FIELD_PRESENCE_LOG a) f
       + length (filter (\<lambda>r. field_truthy py_truthy r f) (snd (json_item_records meta cfg r a)))"
  unfolding json_item_records_def
  by (intro run_loop_count [where g = "\<lambda>s. dd_get (FIELD_PRESENCE_LOG s) f"] json_item_field_log)

lemma json_item_records_out_indep:
  "snd (json_item_records meta cfg r a) = snd (json_item_records meta cfg r a')"
  unfolding json_item_records_def by (intro run_loop_out_indep json_item_out_indep)

lemma json_modifier_payer_out:
  "snd (json_modifier_payer meta mc md p a) = [json_modifier_row meta mc md p]"
  by (simp add: json_modifier_payer_def Let_def)

lemma json_modifier_payer_presence:
  "CODE_TYPE_PRESENCE (fst (json_modifier_payer meta mc md p a)) = CODE_TYPE_PRESENCE a"
  by (simp add: json_modifier_payer_def Let_def)

lemma json_modifier_payer_field_log:
  "dd_get (FIELD_PRESENCE_LOG (fst (json_modifier_payer meta mc md p a))) f
     = dd_get (FIELD_PRESENCE_LOG a) f
       + length (filter (\<lambda>r. field_truthy py_truthy r f) (snd (json_modifier_payer meta mc md p a)))"
  using field_truthy_key [of py_truthy "json_modifier_row meta mc md p" f]
    json_modifier_row_keys [of meta mc md p]
  by (auto simp: json_modifier_payer_def Let_def dd_get_log_presence [OF distinct_HEADERS_json])

lemma json_modifier_out:
  "snd (json_modifier meta m a) =
     map (json_modifier_row meta (jget (modifier_fields m) ''code'' (JStr []))
            (jget (modifier_fields m) ''description'' (JStr [])))
       (modifier_payer_information m)"
  unfolding json_modifier_def Let_def by (rule run_loop_out_map) (rule json_modifier_payer_out)

lemma json_modifier_marker:
  "list_all (\<lambda>r. json_code_type r = JStr ''MODIFIER'') (snd (json_modifier meta m a))"
  by (simp add: json_modifier_out list_all_iff json_code_type_modifier_row)

lemma json_modifier_presence:
  "CODE_TYPE_PRESENCE (fst (json_modifier meta m a)) = CODE_TYPE_PRESENCE a"
  unfolding json_modifier_def Let_def
  by (simp add: run_loop_keep [where g = CODE_TYPE_PRESENCE, OF json_modifier_payer_presence])

lemma json_modifier_field_log:
  "dd_get (FIELD_PRESENCE_LOG (fst (json_modifier meta m a))) f
     = dd_get (FIELD_PRESENCE_LOG a) f
       + length (filter (\<lambda>r. field_truthy py_truthy r f) (snd (json_modifier meta m a)))"
proof -
  let ?a1 = "a\<lparr>MODIFIER_COUNTS := dd_incr (jget (modifier_fields m) ''code'' (JStr [])) (MODIFIER_COUNTS a)\<rparr>"
  let ?body = "json_modifier_payer meta (jget (modifier_fields m) ''code'' (JStr []))
                 (jget (modifier_fields m) ''description'' (JStr []))"
  have "dd_get (FIELD_PRESENCE_LOG (fst (run_loop ?body (modifier_payer_information m) ?a1))) f
      = dd_get (FIELD_PRESENCE_LOG ?a1) f
        + length (filter (\<lambda>r. field_truthy py_truthy r f)
            (snd (run_loop ?body (modifier_payer_information m) ?a1)))"
    by (intro run_loop_count [where g = "\<lambda>s. dd_get (FIELD_PRESENCE_LOG s) f"]
        json_modifier_payer_field_log)
  then show ?thesis by (simp add: json_modifier_def Let_def)
qed

lemma json_modifier_records_marker:
  "list_all (\<lambda>r. json_code_type r = JStr ''MODIFIER'') (snd (json_modifier_records meta r a))"
  unfolding json_modifier_records_def by (intro run_loop_all json_modifier_marker)

lemma json_modifier_records_presence:
  "CODE_TYPE_PRESENCE (fst (json_modifier_records meta r a)) = CODE_TYPE_PRESENCE a"
  unfolding json_modifier_records_def by (intro run_loop_keep json_modifier_presence)

lemma json_modifier_records_field_log:
  "dd_get (FIELD_PRESENCE_LOG (fst (json_modifier_records meta r a))) f
     = dd_get (FIELD_PRESENCE_LOG a) f
       + length (filter (\<lambda>r. field_truthy py_truthy r f) (snd (json_modifier_records meta r a)))"
  unfolding json_modifier_records_def
  by (intro run_loop_count [where g = "\<lambda>s. dd_get (FIELD_PRESENCE_LOG s) f"] json_modifier_field_log)

lemma json_modifier_records_out_indep:
  "snd (json_modifier_records meta r a) = snd (json_modifier_records meta r a')"
proof -
  have "snd (json_modifier meta m s) = snd (json_modifier meta m s')" for m s s'
    by (simp add: json_modifier_out)
  then show ?thesis
    unfolding json_modifier_records_def by (rule run_loop_out_indep)
qed

lemma json_records_out:
  "snd (json_records meta cfg r a)
     = snd (json_item_records meta cfg r a) @ snd (json_modifier_records meta r a)"
  using json_modifier_records_out_indep [of meta r "fst (json_item_records meta cfg r a)" a]
  by (simp add: json_records_def Let_def split_beta)

lemma json_records_presence:
  "dd_get (CODE_TYPE_PRESENCE (fst (json_records meta cfg r a))) t
     = dd_get (CODE_TYPE_PRESENCE a) t
       + length (filter (\<lambda>ce. admitted cfg (raw_code_type_of ce) = Some t)
           (concat (map code_information (json_items r))))"
  by (simp add: json_records_def Let_def split_beta json_modifier_records_presence
      json_item_records_presence)

lemma json_records_field_log:
  "dd_get (FIELD_PRESENCE_LOG (fst (json_records meta cfg r a))) f
     = dd_get (FIELD_PRESENCE_LOG a) f
       + length (filter (\<lambda>r. field_truthy py_truthy r f) (snd (json_records meta cfg r a)))"
  by (simp add: json_records_def Let_def split_beta json_modifier_records_field_log
      json_item_records_field_log)

lemma json_records_out_indep:
  "snd (json_records meta cfg r a) = snd (json_records meta cfg r a')"
  by (simp only: json_records_out json_item_records_out_indep [of meta cfg r a a']
      json_modifier_records_out_indep [of meta r a a'])

section \<open>Lemmas on the audit report and the runs\<close>

lemma build_devlog_summary:
  "field_presence_summary (fst (build_devlog ad mrf hs cfg a)) = full_field_summary hs a"
  by (simp add: build_devlog_def missing_code_types_def Let_def)

lemma build_devlog_presence:
  "dd_get (code_type_presence (fst (build_devlog ad mrf hs cfg a))) t = dd_get (CODE_TYPE_PRESENCE a) t"
  by (simp add: build_devlog_def missing_code_types_def Let_def dd_get_fold_touch)

lemma build_devlog_state_field_log:
  "FIELD_PRESENCE_LOG (snd (build_devlog ad mrf hs cfg a)) = FIELD_PRESENCE_LOG a"
  by (simp add: build_devlog_def missing_code_types_def Let_def)

lemma build_devlog_state_presence:
  "dd_get (CODE_TYPE_PRESENCE (snd (build_devlog ad mrf hs cfg a))) t = dd_get (CODE_TYPE_PRESENCE a) t"
  by (simp add: build_devlog_def missing_code_types_def Let_def dd_get_fold_touch)

lemma dd_get_init [simp]:
  "dd_get (FIELD_PRESENCE_LOG audit_init) f = 0" "dd_get (CODE_TYPE_PRESENCE audit_init) t = 0"
  by (simp_all add: audit_init_def dd_get_def)

lemma tall_out:
  "fst (extract_tall_format_csv meta cfg mrf chunks a)
     = (join '','' HEADERS_tall @ [CHR 0x0A]) # map tall_csv_line (snd (tall_records meta cfg chunks a))"
  by (simp add: extract_tall_format_csv_def Let_def split_beta)

lemma wide_out:
  "fst (extract_wide_format_csv meta cfg mrf all_columns body a)
     = HEADERS_wide # map (\<lambda>r. map (rec_get r) HEADERS_wide) (snd (wide_records meta cfg all_columns body a))"
  by (simp add: extract_wide_format_csv_def Let_def split_beta)

lemma json_out: "fst (parse_json meta cfg r a) = snd (json_records meta cfg r a)"
  by (simp add: parse_json_def Let_def split_beta)

lemma tall_log_summary:
  "field_presence_summary (tall_log meta cfg mrf chunks a)
     = full_field_summary HEADERS_tall (fst (tall_records meta cfg chunks a))"
  by (simp add: tall_log_def extract_tall_format_csv_def Let_def split_beta build_devlog_summary)

lemma wide_log_summary:
  "field_presence_summary (wide_log meta cfg mrf all_columns body a)
     = full_field_summary HEADERS_wide (fst (wide_records meta cfg all_columns body a))"
  by (simp add: wide_log_def extract_wide_format_csv_def Let_def split_beta build_devlog_summary)

lemma json_log_summary:
  "field_presence_summary (json_log meta cfg r a)
     = full_field_summary HEADERS_json (fst (json_records meta cfg r a))"
  by (simp add: json_log_def parse_json_def Let_def split_beta build_devlog_summary)

lemma tall_log_presence:
  "dd_get (code_type_presence (tall_log meta cfg mrf chunks a)) t
     = dd_get (CODE_TYPE_PRESENCE (fst (tall_records meta cfg chunks a))) t"
  by (simp add: tall_log_def extract_tall_format_csv_def Let_def split_beta build_devlog_presence)

lemma wide_log_presence:
  "dd_get (code_type_presence (wide_log meta cfg mrf all_columns body a)) t
     = dd_get (CODE_TYPE_PRESENCE (fst (wide_records meta cfg all_columns body a))) t"
  by (simp add: wide_log_def extract_wide_format_csv_def Let_def split_beta build_devlog_presence)

lemma json_log_presence:
  "dd_get (code_type_presence (json_log meta cfg r a)) t
     = dd_get (CODE_TYPE_PRESENCE (fst (json_records meta cfg r a))) t"
  by (simp add: json_log_def parse_json_def Let_def split_beta build_devlog_presence)

lemma tall_summary_count:
  "full_field_summary HEADERS_tall (fst (tall_records meta cfg chunks a))
     = map (\<lambda>f. (f, dd_get (FIELD_PRESENCE_LOG a) f
                     + length (filter (\<lambda>r. field_truthy str_truthy r f)
                         (snd (tall_records meta cfg chunks a))))) HEADERS_tall"
  unfolding full_field_summary_def
  by (rule map_cong [OF refl]) (simp add: tall_records_field_log)

lemma wide_summary_count:
  "full_field_summary HEADERS_wide (fst (wide_records meta cfg all_columns body a))
     = map (\<lambda>f. (f, dd_get (FIELD_PRESENCE_LOG a) f
                     + length (filter (\<lambda>r. field_truthy str_truthy r f)
                         (snd (wide_records meta cfg all_columns body a))))) HEADERS_wide"
  unfolding full_field_summary_def
  by (rule map_cong [OF refl]) (simp add: wide_records_field_log)

lemma json_summary_count:
  "full_field_summary HEADERS_json (fst (json_records meta cfg r a))
     = map (\<lambda>f. (f, dd_get (FIELD_PRESENCE_LOG a) f
                     + length (filter (\<lambda>r. field_truthy py_truthy r f)
                         (snd (json_records meta cfg r a))))) HEADERS_json"
  unfolding full_field_summary_def
  by (rule map_cong [OF refl]) (simp add: json_records_field_log)

lemma map_of_summary:
  "map_of (map (\<lambda>f. (f, g f)) ks) k = (if k \<in> set ks then Some (g k) else None)"
  by (simp add: map_of_map_restrict restrict_map_def)

lemma wide_record_no_payer_id:
  "map_of (wide_record meta row gn mr key fd) ''insurance payer id'' = None"
  by (cases key) (simp add: wide_record_def Let_def)

lemma wide_records_no_payer_id:
  "list_all (\<lambda>r. map_of r ''insurance payer id'' = None) (snd (wide_records meta cfg all_columns body a))"
proof -
  have "list_all (\<lambda>r. map_of r ''insurance payer id'' = None) (snd (wide_row meta cfg pcols row s))"
    for pcols row s
    by (simp add: wide_row_out list_all_iff wide_record_no_payer_id)
  then show ?thesis
    unfolding wide_records_def by (rule run_loop_all)
qed

lemma filter_none: "list_all (\<lambda>r. \<not> P r) rs \<Longrightarrow> filter P rs = []"
  by (induction rs) auto

lemma run_loop_out_concat:
  assumes "\<And>x s s'. snd (body x s) = snd (body x s')"
  shows "snd (run_loop body xs s) = concat (map (\<lambda>x. snd (body x s0)) xs)"
proof (induction xs arbitrary: s)
  case Nil
  show ?case by simp
next
  case (Cons x xs)
  from assms [of x s s0] Cons [of "fst (body x s)"] show ?case
    by (simp add: split_beta)
qed

lemma wide_records_le_writes:
  "length (filter (\<lambda>r. code_type_of r = t) (snd (wide_records meta cfg all_columns body a)))
     \<le> length (filter (\<lambda>w. key_type (fst w) = t)
           (concat (map (wide_writes cfg (payer_cols all_columns)) body)))"
proof -
  have "snd (wide_records meta cfg all_columns body a)
      = concat (map (\<lambda>row. snd (wide_row meta cfg (payer_cols all_columns) row a)) body)"
    unfolding wide_records_def by (intro run_loop_out_concat wide_row_out_indep)
  then show ?thesis
    by (simp add: length_filter_concat comp_def sum_list_mono wide_row_records_le_writes)
qed

lemma tall_after_field_log:
  "dd_get (FIELD_PRESENCE_LOG (tall_after meta cfg mrf chunks a)) f
     = dd_get (FIELD_PRESENCE_LOG (fst (tall_records meta cfg chunks a))) f"
  by (simp add: tall_after_def extract_tall_format_csv_def Let_def split_beta build_devlog_state_field_log)

lemma wide_after_field_log:
  "dd_get (FIELD_PRESENCE_LOG (wide_after meta cfg mrf all_columns body a)) f
     = dd_get (FIELD_PRESENCE_LOG (fst (wide_records meta cfg all_columns body a))) f"
  by (simp add: wide_after_def extract_wide_format_csv_def Let_def split_beta build_devlog_state_field_log)

lemma json_after_field_log:
  "dd_get (FIELD_PRESENCE_LOG (json_after meta cfg r a)) f
     = dd_get (FIELD_PRESENCE_LOG (fst (json_records meta cfg r a))) f"
  by (simp add: json_after_def parse_json_def Let_def split_beta build_devlog_state_field_log)

lemma tall_after_presence:
  "dd_get (CODE_TYPE_PRESENCE (tall_after meta cfg mrf chunks a)) t
     = dd_get (CODE_TYPE_PRESENCE (fst (tall_records meta cfg chunks a))) t"
  by (simp add: tall_after_def extract_tall_format_csv_def Let_def split_beta build_devlog_state_presence)

lemma wide_after_presence:
  "dd_get (CODE_TYPE_PRESENCE (wide_after meta cfg mrf all_columns body a)) t
     = dd_get (CODE_TYPE_PRESENCE (fst (wide_records meta cfg all_columns body a))) t"
  by (simp add: wide_after_def extract_wide_format_csv_def Let_def split_beta build_devlog_state_presence)

lemma json_after_presence:
  "dd_get (CODE_TYPE_PRESENCE (json_after meta cfg r a)) t
     = dd_get (CODE_TYPE_PRESENCE (fst (json_records meta cfg r a))) t"
  by (simp add: json_after_def parse_json_def Let_def split_beta build_devlog_state_presence)

lemma tall_summary_second:
  "field_presence_summary (tall_log meta cfg mrf chunks (tall_after meta cfg mrf chunks audit_init))
     = map (\<lambda>(f, n). (f, 2 * n)) (field_presence_summary (tall_log meta cfg mrf chunks audit_init))"
proof -
  let ?a = "tall_after meta cfg mrf chunks audit_init"
  have r: "snd (tall_records meta cfg chunks ?a) = snd (tall_records meta cfg chunks audit_init)"
    by (rule tall_records_out_indep)
  have "dd_get (FIELD_PRESENCE_LOG ?a) f
      = length (filter (\<lambda>r. field_truthy str_truthy r f) (snd (tall_records meta cfg chunks audit_init)))"
    if "f \<in> set HEADERS_tall" for f
    using that by (simp add: tall_after_field_log tall_records_field_log)
  then show ?thesis
    by (simp add: tall_log_summary tall_summary_count r comp_def)
qed

lemma wide_summary_second:
  "field_presence_summary (wide_log meta cfg mrf cols body (wide_after meta cfg mrf cols body audit_init))
     = map (\<lambda>(f, n). (f, 2 * n)) (field_presence_summary (wide_log meta cfg mrf cols body audit_init))"
proof -
  let ?a = "wide_after meta cfg mrf cols body audit_init"
  have r: "snd (wide_records meta cfg cols body ?a) = snd (wide_records meta cfg cols body audit_init)"
    by (rule wide_records_out_indep)
  have "dd_get (FIELD_PRESENCE_LOG ?a) f
      = length (filter (\<lambda>r. field_truthy str_truthy r f) (snd (wide_records meta cfg cols body audit_init)))"
    for f
    by (simp add: wide_after_field_log wide_records_field_log)
  then show ?thesis
    by (simp add: wide_log_summary wide_summary_count r comp_def)
qed

lemma json_summary_second:
  "field_presence_summary (json_log meta cfg r (json_after meta cfg r audit_init))
     = map (\<lambda>(f, n). (f, 2 * n)) (field_presence_summary (json_log meta cfg r audit_init))"
proof -
  let ?a = "json_after meta cfg r audit_init"
  have r: "snd (json_records meta cfg r ?a) = snd (json_records meta cfg r audit_init)"
    by (rule json_records_out_indep)
  have "dd_get (FIELD_PRESENCE_LOG ?a) f
      = length (filter (\<lambda>r. field_truthy py_truthy r f) (snd (json_records meta cfg r audit_init)))"
    for f
    by (simp add: json_after_field_log json_records_field_log)
  then show ?thesis
    by (simp add: json_log_summary json_summary_count r comp_def)
qed

lemma tall_presence_second:
  "dd_get (code_type_presence (tall_log meta cfg mrf chunks (tall_after meta cfg mrf chunks audit_init))) t
     = 2 * dd_get (code_type_presence (tall_log meta cfg mrf chunks audit_init)) t"
  using tall_records_out_indep [of meta cfg chunks "tall_after meta cfg mrf chunks audit_init" audit_init]
  by (simp add: tall_log_presence tall_records_presence tall_after_presence)

lemma wide_presence_second:
  "dd_get (code_type_presence (wide_log meta cfg mrf cols body (wide_after meta cfg mrf cols body audit_init))) t
     = 2 * dd_get (code_type_presence (wide_log meta cfg mrf cols body audit_init)) t"
  by (simp add: wide_log_presence wide_records_presence wide_after_presence)

lemma json_presence_second:
  "dd_get (code_type_presence (json_log meta cfg r (json_after meta cfg r audit_init))) t
     = 2 * dd_get (code_type_presence (json_log meta cfg r audit_init)) t"
  by (simp add: json_log_presence json_records_presence json_after_presence)

lemma slot_pair_admitted:
  "slot_pair cfg row i =
     (let code = strip (row_get row (code_col i));
          raw = upper (strip (row_get row (type_col i)))
      in if code = [] \<or> raw = [] then []
         else case admitted cfg raw of None \<Rightarrow> [] | Some t \<Rightarrow> [(code, t)])"
  by (simp add: slot_pair_def admitted_def Let_def split: option.splits)

lemma wide_slot_out_pair:
  "snd (wide_slot cfg row pn pl mf v i a)
     = map (\<lambda>ct. ((fst ct, snd ct, pn, pl), mf, v)) (slot_pair cfg row i)"
  by (simp add: wide_slot_out slot_pair_admitted Let_def split: option.splits)

lemma wide_slots_out:
  "snd (run_loop (wide_slot cfg row pn pl mf v) [1 ..< 5] a)
     = map (\<lambda>ct. ((fst ct, snd ct, pn, pl), mf, v)) (admitted_slots cfg row)"
proof -
  have "snd (run_loop (wide_slot cfg row pn pl mf v) xs a)
      = concat (map (\<lambda>i. snd (wide_slot cfg row pn pl mf v i a)) xs)" for xs
    by (rule run_loop_out_concat) (simp add: wide_slot_out)
  then show ?thesis
    by (simp only: admitted_slots_def wide_slot_out_pair map_concat map_map comp_def)
qed

lemma wide_col_writes:
  "snd (wide_col cfg row col a) =
     (case wide_col_target row col of
        None \<Rightarrow> []
      | Some (pn, pl, mf, v) \<Rightarrow> map (\<lambda>ct. ((fst ct, snd ct, pn, pl), mf, v)) (admitted_slots cfg row))"
proof (cases "wide_col_target row col")
  case None
  then show ?thesis by (simp only: wide_col_unfold option.case snd_conv)
next
  case (Some tg)
  obtain pn pl mf v where tg: "tg = (pn, pl, mf, v)" by (cases tg) auto
  show ?thesis
    by (simp only: wide_col_unfold Some tg option.case prod.case wide_slots_out)
qed

lemma wide_writes_unfold:
  "wide_writes cfg pcols row =
     concat (map (\<lambda>col. case wide_col_target row col of
                           None \<Rightarrow> []
                         | Some (pn, pl, mf, v) \<Rightarrow>
                             map (\<lambda>ct. ((fst ct, snd ct, pn, pl), mf, v)) (admitted_slots cfg row)) pcols)"
proof -
  have "wide_writes cfg pcols row = concat (map (\<lambda>col. snd (wide_col cfg row col audit_init)) pcols)"
    unfolding wide_writes_def by (intro run_loop_out_concat wide_col_out_indep)
  then show ?thesis by (simp only: wide_col_writes)
qed

lemma group_key_wide_record: "group_key_of (wide_record meta row gn mr key fd) = key"
  by (cases key) (simp add: group_key_of_def rec_get_def wide_record_def Let_def)

lemma pivoted_wide_record:
  "map (rec_get (wide_record meta row gn mr key fd)) pivoted_fields = map (rec_get fd) pivoted_fields"
  by (cases key) (simp add: pivoted_fields_def rec_get_def wide_record_def Let_def)

lemma notes_wide_record:
  "rec_get (wide_record meta row gn mr key fd) ''additional notes''
     = join '', '' (filter (\<lambda>s. s \<noteq> []) [gn, rec_get fd ''additional notes''])"
  by (cases key) (simp add: rec_get_def wide_record_def Let_def)

lemma prm_item_last_write:
  assumes "item \<in> set (fold prm_assign ws [])"
  shows "rec_get (snd item) f = (case last_write ws (fst item) f of None \<Rightarrow> [] | Some v \<Rightarrow> v)"
proof -
  let ?m = "fold prm_assign ws []"
  have "distinct (map fst ?m)" by (rule prm_distinct_fold) simp
  with assms have "map_of ?m (fst item) = Some (snd item)" by simp
  then have "map_of (snd item) f = prm_lookup ?m (fst item) f"
    by (simp add: prm_lookup_def)
  also have "\<dots> = last_write ws (fst item) f"
  proof -
    have "prm_lookup [] (fst item) f = None" by (simp add: prm_lookup_def)
    then show ?thesis by (simp add: prm_lookup_fold split: option.splits)
  qed
  finally show ?thesis by (simp add: rec_get_def)
qed

lemma split_price_column:
  "map strip (split_on is_pipe ''standard_charge|PayerA|PlanA|negotiated_dollar'')
     = [''standard_charge'', ''PayerA'', ''PlanA'', ''negotiated_dollar'']"
  by code_simp

lemma split_methodology_column:
  "map strip (split_on is_pipe ''standard_charge|PayerA|PlanA|methodology'')
     = [''standard_charge'', ''PayerA'', ''PlanA'', ''methodology'']"
  by code_simp

lemma target_price_column:
  assumes "row ''standard_charge|PayerA|PlanA|negotiated_dollar'' = Some v" "v \<noteq> []"
  shows "wide_col_target row ''standard_charge|PayerA|PlanA|negotiated_dollar''
           = Some (''PayerA'', ''PlanA'', ''negotiated price'', v)"
  unfolding wide_col_target_def Let_def split_price_column
  using assms by (simp add: STANDARD_CHARGE_PREFIXES_def row_get_def)

lemma target_methodology_column:
  assumes "row ''standard_charge|PayerA|PlanA|methodology'' = Some v" "v \<noteq> []"
  shows "wide_col_target row ''standard_charge|PayerA|PlanA|methodology''
           = Some (''PayerA'', ''PlanA'', ''negotiated methodology'', v)"
  unfolding wide_col_target_def Let_def split_methodology_column
  using assms by (simp add: STANDARD_CHARGE_PREFIXES_def row_get_def)

lemma wide_row_two_columns:
  assumes w: "wide_writes cfg pcols row = [(key, f1, v1), (key, f2, v2)]"
    and f: "(f1 = ''negotiated price'' \<and> v1 = ''100'' \<and> f2 = ''negotiated methodology'' \<and> v2 = ''case rate'')
      \<or> (f2 = ''negotiated price'' \<and> v2 = ''100'' \<and> f1 = ''negotiated methodology'' \<and> v1 = ''case rate'')"
  shows "map record_view (snd (wide_row meta cfg pcols row a)) = [(key, ''100'', ''case rate'')]"
proof -
  define fd where "fd = AList.update f2 v2 [(f1, v1)]"
  have m: "fold prm_assign (wide_writes cfg pcols row) [] = [(key, fd)]"
    unfolding w fd_def by (simp add: prm_assign_def)
  have v: "rec_get (wide_record meta row gn mr key fd) ''negotiated price'' = rec_get fd ''negotiated price''
      \<and> rec_get (wide_record meta row gn mr key fd) ''negotiated methodology''
          = rec_get fd ''negotiated methodology''" for gn mr
    by (cases key) (simp add: wide_record_def rec_get_def Let_def)
  from f have p: "rec_get fd ''negotiated price'' = ''100''
      \<and> rec_get fd ''negotiated methodology'' = ''case rate''"
    unfolding fd_def by (auto simp: rec_get_def)
  show ?thesis
    unfolding wide_row_out m
    by (simp add: record_view_def group_key_wide_record v p)
qed

lemma wide_writes_price_methodology:
  assumes p: "row ''standard_charge|PayerA|PlanA|negotiated_dollar'' = Some ''100''"
    and m: "row ''standard_charge|PayerA|PlanA|methodology'' = Some ''case rate''"
    and s: "admitted_slots cfg row = [(code, t)]"
  shows "wide_writes cfg [''standard_charge|PayerA|PlanA|negotiated_dollar'',
                          ''standard_charge|PayerA|PlanA|methodology''] row
           = [((code, t, ''PayerA'', ''PlanA''), ''negotiated price'', ''100''),
              ((code, t, ''PayerA'', ''PlanA''), ''negotiated methodology'', ''case rate'')]"
    and "wide_writes cfg [''standard_charge|PayerA|PlanA|methodology'',
                          ''standard_charge|PayerA|PlanA|negotiated_dollar''] row
           = [((code, t, ''PayerA'', ''PlanA''), ''negotiated methodology'', ''case rate''),
              ((code, t, ''PayerA'', ''PlanA''), ''negotiated price'', ''100'')]"
proof -
  have tp: "wide_col_target row ''standard_charge|PayerA|PlanA|negotiated_dollar''
      = Some (''PayerA'', ''PlanA'', ''negotiated price'', ''100'')"
    using target_price_column [of row "''100''"] p by simp
  have tm: "wide_col_target row ''standard_charge|PayerA|PlanA|methodology''
      = Some (''PayerA'', ''PlanA'', ''negotiated methodology'', ''case rate'')"
    using target_methodology_column [of row "''case rate''"] m by simp
  show "wide_writes cfg [''standard_charge|PayerA|PlanA|negotiated_dollar'',
                          ''standard_charge|PayerA|PlanA|methodology''] row
           = [((code, t, ''PayerA'', ''PlanA''), ''negotiated price'', ''100''),
              ((code, t, ''PayerA'', ''PlanA''), ''negotiated methodology'', ''case rate'')]"
    unfolding wide_writes_unfold list.map tp tm s by simp
  show "wide_writes cfg [''standard_charge|PayerA|PlanA|methodology'',
                          ''standard_charge|PayerA|PlanA|negotiated_dollar''] row
           = [((code, t, ''PayerA'', ''PlanA''), ''negotiated methodology'', ''case rate''),
              ((code, t, ''PayerA'', ''PlanA''), ''negotiated price'', ''100'')]"
    unfolding wide_writes_unfold list.map tp tm s by simp
qed

lemma length_split_on: "length (split_on d s) = Suc (length (filter d s))"
proof (induction s)
  case Nil
  show ?case by simp
next
  case (Cons c s)
  obtain p ps where r: "split_on d s = p # ps"
    using split_on_nonempty [of d s] by (cases "split_on d s") auto
  with Cons show ?case by (simp add: Let_def)
qed

lemma length_col_parts: "length (col_parts col) = Suc (count_pipes col)"
  by (simp add: col_parts_def count_pipes_def length_split_on)

lemma pipe_not_space: "is_pipe c \<Longrightarrow> \<not> is_space c"
  by (auto simp: is_pipe_def is_space_def)

lemma col_parts_strip: "map strip (split_on is_pipe (strip col)) = col_parts col"
  unfolding col_parts_def by (rule map_strip_split_strip) (rule pipe_not_space)

lemma first_segment: "strip (hd (split_on is_pipe (strip col))) = col_parts col ! 0"
proof -
  have "strip (hd (split_on is_pipe (strip col))) = hd (map strip (split_on is_pipe (strip col)))"
    using split_on_nonempty [of is_pipe "strip col"] by (simp add: hd_map)
  also have "\<dots> = col_parts col ! 0"
    using split_on_nonempty [of is_pipe col]
    by (simp only: col_parts_strip) (simp add: col_parts_def hd_conv_nth)
  finally show ?thesis .
qed

lemma last_segment: "strip (last (split_on is_pipe (strip col))) = last (col_parts col)"
proof -
  have "strip (last (split_on is_pipe (strip col))) = last (map strip (split_on is_pipe (strip col)))"
    using split_on_nonempty [of is_pipe "strip col"] by (simp add: last_map)
  then show ?thesis by (simp only: col_parts_strip)
qed

lemma known_field_key:
  assumes "k \<in> fst ` set STANDARD_CHARGE_PREFIXES"
  shows "\<exists>f. map_of STANDARD_CHARGE_PREFIXES k = Some f \<and> f \<noteq> []"
proof -
  from assms have "k = ''negotiated_dollar'' \<or> k = ''negotiated_percentage'' \<or> k = ''negotiated_algorithm''
      \<or> k = ''estimated_amount'' \<or> k = ''methodology'' \<or> k = ''additional_payer_notes''"
    by (simp add: STANDARD_CHARGE_PREFIXES_def)
  then show ?thesis
    by (elim disjE) (simp_all add: STANDARD_CHARGE_PREFIXES_def)
qed

lemma selected_field_key:
  assumes "is_payer_col col"
  shows "3 \<le> length (col_parts col)"
    and "\<exists>f. map_of STANDARD_CHARGE_PREFIXES
               (if length (col_parts col) = 3 then col_parts col ! 0 else last (col_parts col)) = Some f
             \<and> f \<noteq> []"
proof -
  from assms have c: "2 \<le> count_pipes col" by (simp add: is_payer_col_def)
  then show "3 \<le> length (col_parts col)" by (simp add: length_col_parts)
  from assms have
    "(count_pipes col = 2 \<and> col_parts col ! 0 \<in> fst ` set STANDARD_CHARGE_PREFIXES)
     \<or> (count_pipes col > 2 \<and> last (col_parts col) \<in> fst ` set STANDARD_CHARGE_PREFIXES)"
    by (simp only: is_payer_col_def first_segment last_segment)
  then show "\<exists>f. map_of STANDARD_CHARGE_PREFIXES
               (if length (col_parts col) = 3 then col_parts col ! 0 else last (col_parts col)) = Some f
             \<and> f \<noteq> []"
  proof
    assume a: "count_pipes col = 2 \<and> col_parts col ! 0 \<in> fst ` set STANDARD_CHARGE_PREFIXES"
    then have "length (col_parts col) = 3" by (simp add: length_col_parts)
    with a known_field_key [of "col_parts col ! 0"] show ?thesis by simp
  next
    assume a: "count_pipes col > 2 \<and> last (col_parts col) \<in> fst ` set STANDARD_CHARGE_PREFIXES"
    then have "length (col_parts col) \<noteq> 3" by (simp add: length_col_parts)
    with a known_field_key [of "last (col_parts col)"] show ?thesis by simp
  qed
qed

lemma selected_col_writes:
  assumes "is_payer_col col"
  shows "snd (wide_col cfg row col a) = column_writes cfg row col"
proof -
  from selected_field_key [OF assms] obtain f where
    l: "\<not> length (col_parts col) < 3" and
    f: "map_of STANDARD_CHARGE_PREFIXES
          (if length (col_parts col) = 3 then col_parts col ! 0 else last (col_parts col)) = Some f"
       "f \<noteq> []"
    by (auto simp: not_less)
  have t: "wide_col_target row col =
      (if payer_segment col = [] \<or> row_get row col = [] then None
       else Some (payer_segment col, plan_segment col, f, row_get row col))"
    unfolding wide_col_target_def Let_def col_parts_def [symmetric]
      payer_segment_def plan_segment_def
    using l f by simp
  have c: "canonical_field col = f"
    unfolding canonical_field_def using f(1) by simp
  show ?thesis
    unfolding wide_col_writes t column_writes_def c by simp
qed

lemma selected_writes:
  "wide_writes cfg (payer_cols all_columns) row
     = concat (map (column_writes cfg row) (payer_cols all_columns))"
proof -
  have "wide_writes cfg (payer_cols all_columns) row
      = concat (map (\<lambda>col. snd (wide_col cfg row col audit_init)) (payer_cols all_columns))"
    unfolding wide_writes_def by (intro run_loop_out_concat wide_col_out_indep)
  also have "\<dots> = concat (map (column_writes cfg row) (payer_cols all_columns))"
    by (rule arg_cong [where f = concat], rule map_cong [OF refl])
       (simp add: payer_cols_def selected_col_writes)
  finally show ?thesis .
qed

lemma join_two_notes:
  "join '', '' (filter (\<lambda>s. s \<noteq> []) [g, p]) = spec_combined_notes g p"
  by (simp add: spec_combined_notes_def)

lemma notes_wide_record_spec:
  "rec_get (wide_record meta row gn mr key fd) ''additional notes''
     = spec_combined_notes gn (rec_get fd ''additional notes'')"
  by (simp only: notes_wide_record join_two_notes)


section \<open>Claims\<close>

subsection \<open>C1\<close>

text \<open>
  C1, as the claim states it, fails on the JSON walker: with the allowed set {CPT}, the
  document with one modifier and one modifier payer entry yields a record whose code type
  is the marker MODIFIER, which is not in the allowed set.
\<close>

theorem modifier_record_outside_allow_list:
  "\<not> list_all (\<lambda>r. json_code_type r \<in> JStr ` set (allowed_code_types ex_cfg))
        (fst (parse_json ex_meta ex_cfg ex_modifier_doc audit_init))"
  by code_simp

text \<open>
  C1, amended. For every run, with any allowed set and normalization map, every record
  the tall walker writes, every record the wide walker hands to the table and every record
  the JSON walker emits for a line item has a code type that is a member of the allowed
  set. The JSON walker emits the line-item records first and then the records of the
  standalone modifier list, each of which carries the marker MODIFIER as its code type
  without any test against the allowed set.
\<close>

theorem emitted_code_types_allowed:
  "list_all (\<lambda>r. code_type_of r \<in> set (allowed_code_types cfg)) (snd (tall_records meta cfg chunks a))
   \<and> fst (extract_tall_format_csv meta cfg mrf chunks a)
       = (join '','' HEADERS_tall @ [CHR 0x0A]) # map tall_csv_line (snd (tall_records meta cfg chunks a))
   \<and> list_all (\<lambda>r. code_type_of r \<in> set (allowed_code_types cfg))
        (snd (wide_records meta cfg all_columns body a))
   \<and> fst (extract_wide_format_csv meta cfg mrf all_columns body a)
       = HEADERS_wide # map (\<lambda>r. map (rec_get r) HEADERS_wide) (snd (wide_records meta cfg all_columns body a))
   \<and> list_all (\<lambda>r. json_code_type r \<in> JStr ` set (allowed_code_types cfg))
        (snd (json_item_records meta cfg r ja))
   \<and> list_all (\<lambda>r. json_code_type r = JStr ''MODIFIER'') (snd (json_modifier_records meta r ja))
   \<and> fst (parse_json meta cfg r ja)
       = snd (json_item_records meta cfg r ja) @ snd (json_modifier_records meta r ja)"
  using tall_records_allowed [of cfg meta chunks a] tall_out [of meta cfg mrf chunks a]
    wide_records_allowed [of cfg meta all_columns body a] wide_out [of meta cfg mrf all_columns body a]
    json_item_records_allowed [of cfg meta r ja] json_modifier_records_marker [of meta r ja]
    json_out [of meta cfg r ja] json_records_out [of meta cfg r ja]
  by simp

subsection \<open>C2\<close>

text \<open>
  C2, as the claim states it, fails: the columns
  \<^verbatim>\<open>standard_charge|negotiated_dollar|PayerA|PlanA\<close> and
  \<^verbatim>\<open>standard_charge|methodology|PayerA|PlanA\<close> have four segments and their last
  segment is no known field key, so neither is selected as a payer column, and the row,
  which has one code slot of an allowed type, produces no record.
\<close>

theorem claim_columns_produce_no_record:
  "payer_cols ex_claim_columns = []
   \<and> admitted_slots ex_cfg ex_claim_row = [(''99213'', ''CPT'')]
   \<and> snd (wide_records ex_meta ex_cfg ex_claim_columns [ex_claim_row] audit_init) = []"
  by code_simp

text \<open>
  C2, amended. In the wide walker the field key of a four-segment column is its last
  segment and payer and plan are its second and third. A body row whose selected payer
  columns are \<^verbatim>\<open>standard_charge|PayerA|PlanA|negotiated_dollar\<close> with value "100" and
  \<^verbatim>\<open>standard_charge|PayerA|PlanA|methodology\<close> with value "case rate", in either
  order, and which has exactly one code slot that normalizes into the allowed set, produces
  exactly one record: it carries that slot's code and canonical type, payer name PayerA,
  plan name PlanA, negotiated price "100" and negotiated methodology "case rate".
\<close>

theorem wide_row_field_last_one_record:
  assumes "payer_cols all_columns = [''standard_charge|PayerA|PlanA|negotiated_dollar'',
                                     ''standard_charge|PayerA|PlanA|methodology'']
         \<or> payer_cols all_columns = [''standard_charge|PayerA|PlanA|methodology'',
                                       ''standard_charge|PayerA|PlanA|negotiated_dollar'']"
    and "row ''standard_charge|PayerA|PlanA|negotiated_dollar'' = Some ''100''"
    and "row ''standard_charge|PayerA|PlanA|methodology'' = Some ''case rate''"
    and "admitted_slots cfg row = [(code, t)]"
  shows "map record_view (snd (wide_row meta cfg (payer_cols all_columns) row a))
           = [((code, t, ''PayerA'', ''PlanA''), ''100'', ''case rate'')]"
  using assms(1)
proof
  assume c: "payer_cols all_columns = [''standard_charge|PayerA|PlanA|negotiated_dollar'',
                                      ''standard_charge|PayerA|PlanA|methodology'']"
  show ?thesis
    unfolding c
    by (rule wide_row_two_columns [OF wide_writes_price_methodology(1) [OF assms(2-4)]]) simp
next
  assume c: "payer_cols all_columns = [''standard_charge|PayerA|PlanA|methodology'',
                                      ''standard_charge|PayerA|PlanA|negotiated_dollar'']"
  show ?thesis
    unfolding c
    by (rule wide_row_two_columns [OF wide_writes_price_methodology(2) [OF assms(2-4)]]) simp
qed

theorem wide_row_field_last_one_record_witness:
  "payer_cols ex_wide_columns = [''standard_charge|PayerA|PlanA|negotiated_dollar'',
                                 ''standard_charge|PayerA|PlanA|methodology'']
   \<and> ex_wide_row ''standard_charge|PayerA|PlanA|negotiated_dollar'' = Some ''100''
   \<and> ex_wide_row ''standard_charge|PayerA|PlanA|methodology'' = Some ''case rate''
   \<and> admitted_slots ex_cfg ex_wide_row = [(''99213'', ''CPT'')]
   \<and> map record_view (snd (wide_row ex_meta ex_cfg (payer_cols ex_wide_columns) ex_wide_row audit_init))
       = [((''99213'', ''CPT'', ''PayerA'', ''PlanA''), ''100'', ''case rate'')]"
proof -
  have h1: "payer_cols ex_wide_columns = [''standard_charge|PayerA|PlanA|negotiated_dollar'',
                                 ''standard_charge|PayerA|PlanA|methodology'']"
    by code_simp
  have h2: "ex_wide_row ''standard_charge|PayerA|PlanA|negotiated_dollar'' = Some ''100''"
    by code_simp
  have h3: "ex_wide_row ''standard_charge|PayerA|PlanA|methodology'' = Some ''case rate''"
    by code_simp
  have h4: "admitted_slots ex_cfg ex_wide_row = [(''99213'', ''CPT'')]"
    by code_simp
  from wide_row_field_last_one_record [OF disjI1 [OF h1] h2 h3 h4, of ex_meta audit_init] h1 h2 h3 h4
  show ?thesis by blast
qed

subsection \<open>C3\<close>

text \<open>
  C3, as the claim states it, fails on the JSON walker: for the document with one allowed
  code entry and two payer entries the presence counter of CPT is 1 while two records
  with code type CPT are emitted.
\<close>

theorem presence_counter_differs_from_record_count:
  "dd_get (code_type_presence (json_log ex_meta ex_cfg ex_item_doc audit_init)) ''CPT'' = 1
   \<and> length (filter (\<lambda>r. json_code_type r = JStr ''CPT'')
        (fst (parse_json ex_meta ex_cfg ex_item_doc audit_init))) = 2"
  by code_simp

text \<open>
  C3, amended. In a run that starts from the empty accumulators, for every code type t:
  the tall walker's presence counter of t in the audit report equals the number of records
  it wrote with code type t; the JSON walker's counter equals the number of
  \<^verbatim>\<open>code_information\<close> entries, over all line items, whose type normalizes to t inside
  the allowed set (each such entry emits one record per charge and payer entry, possibly
  none); the wide walker's counter equals the number of assignments to the group map whose
  key has type t (one per non-empty payer column and admitted code slot), which is at least
  the number of records emitted with code type t.
\<close>

theorem code_type_presence_counts:
  "dd_get (code_type_presence (tall_log meta cfg mrf chunks audit_init)) t
     = length (filter (\<lambda>r. code_type_of r = t) (snd (tall_records meta cfg chunks audit_init)))
   \<and> dd_get (code_type_presence (json_log meta cfg r audit_init)) t
     = length (filter (\<lambda>ce. admitted cfg (raw_code_type_of ce) = Some t)
         (concat (map code_information (json_items r))))
   \<and> dd_get (code_type_presence (wide_log meta cfg mrf all_columns body audit_init)) t
     = length (filter (\<lambda>w. key_type (fst w) = t)
         (concat (map (wide_writes cfg (payer_cols all_columns)) body)))
   \<and> length (filter (\<lambda>r. code_type_of r = t) (snd (wide_records meta cfg all_columns body audit_init)))
     \<le> dd_get (code_type_presence (wide_log meta cfg mrf all_columns body audit_init)) t"
proof -
  have a: "dd_get (code_type_presence (tall_log meta cfg mrf chunks audit_init)) t
     = length (filter (\<lambda>r. code_type_of r = t) (snd (tall_records meta cfg chunks audit_init)))"
    by (simp add: tall_log_presence tall_records_presence)
  have b: "dd_get (code_type_presence (json_log meta cfg r audit_init)) t
     = length (filter (\<lambda>ce. admitted cfg (raw_code_type_of ce) = Some t)
         (concat (map code_information (json_items r))))"
    by (simp add: json_log_presence json_records_presence)
  have c: "dd_get (code_type_presence (wide_log meta cfg mrf all_columns body audit_init)) t
     = length (filter (\<lambda>w. key_type (fst w) = t)
         (concat (map (wide_writes cfg (payer_cols all_columns)) body)))"
    by (simp add: wide_log_presence wide_records_presence)
  from a b c wide_records_le_writes [of t meta cfg all_columns body audit_init]
  show ?thesis by simp
qed

subsection \<open>C4\<close>

text \<open>
  C4, as the claim states it, fails: the accumulators are module-level and a second run in
  the same process starts from what the first run left. Two runs of the tall walker on the
  same one-row input report the presence of CPT as 1 and then as 2.
\<close>

theorem second_run_report_differs:
  "code_type_presence (tall_log ex_meta ex_cfg Map.empty [[ex_tall_row]] audit_init) = [(''CPT'', 1)]
   \<and> code_type_presence (tall_log ex_meta ex_cfg Map.empty [[ex_tall_row]]
        (tall_after ex_meta ex_cfg Map.empty [[ex_tall_row]] audit_init)) = [(''CPT'', 2)]"
  by code_simp

text \<open>
  C4, amended. For each walker the canonical output of a run does not depend on what the
  accumulators hold when the run starts, so two runs in succession on the same input,
  metadata and configuration write the same output. The accumulators are not reset between
  runs in one process: when the first run starts from the empty accumulators, the second
  report holds, for every field and every code type, twice the count of the first report.
\<close>

theorem rerun_same_output_doubled_counts:
  "fst (extract_tall_format_csv meta cfg mrf chunks a) = fst (extract_tall_format_csv meta cfg mrf chunks a')
   \<and> fst (extract_wide_format_csv meta cfg mrf all_columns body a)
       = fst (extract_wide_format_csv meta cfg mrf all_columns body a')
   \<and> fst (parse_json meta cfg r ja) = fst (parse_json meta cfg r ja')
   \<and> field_presence_summary (tall_log meta cfg mrf chunks (tall_after meta cfg mrf chunks audit_init))
       = map (\<lambda>(f, n). (f, 2 * n)) (field_presence_summary (tall_log meta cfg mrf chunks audit_init))
   \<and> field_presence_summary
         (wide_log meta cfg mrf all_columns body (wide_after meta cfg mrf all_columns body audit_init))
       = map (\<lambda>(f, n). (f, 2 * n))
           (field_presence_summary (wide_log meta cfg mrf all_columns body audit_init))
   \<and> field_presence_summary (json_log meta cfg r (json_after meta cfg r audit_init))
       = map (\<lambda>(f, n). (f, 2 * n)) (field_presence_summary (json_log meta cfg r audit_init))
   \<and> dd_get (code_type_presence (tall_log meta cfg mrf chunks (tall_after meta cfg mrf chunks audit_init))) t
       = 2 * dd_get (code_type_presence (tall_log meta cfg mrf chunks audit_init)) t
   \<and> dd_get (code_type_presence
         (wide_log meta cfg mrf all_columns body (wide_after meta cfg mrf all_columns body audit_init))) t
       = 2 * dd_get (code_type_presence (wide_log meta cfg mrf all_columns body audit_init)) t
   \<and> dd_get (code_type_presence (json_log meta cfg r (json_after meta cfg r audit_init))) t
       = 2 * dd_get (code_type_presence (json_log meta cfg r audit_init)) t"
proof -
  have o1: "fst (extract_tall_format_csv meta cfg mrf chunks a)
      = fst (extract_tall_format_csv meta cfg mrf chunks a')"
    by (simp only: tall_out tall_records_out_indep [of meta cfg chunks a a'])
  have o2: "fst (extract_wide_format_csv meta cfg mrf all_columns body a)
       = fst (extract_wide_format_csv meta cfg mrf all_columns body a')"
    by (simp only: wide_out wide_records_out_indep [of meta cfg all_columns body a a'])
  have o3: "fst (parse_json meta cfg r ja) = fst (parse_json meta cfg r ja')"
    by (simp only: json_out json_records_out_indep [of meta cfg r ja ja'])
  from o1 o2 o3 show ?thesis
    by (simp only: tall_summary_second wide_summary_second json_summary_second
        tall_presence_second wide_presence_second json_presence_second simp_thms)
qed

subsection \<open>C5\<close>

text \<open>
  C5. The tall walker does not write a double quote of a field value: for the body row
  whose description is \<^verbatim>\<open>5" splint\<close> the emitted record holds that description, and
  the cell written for it is \<^verbatim>\<open>"5'' splint"\<close>, with two apostrophes in the place of
  the double quote.
\<close>

theorem tall_writer_rewrites_double_quote:
  "map (\<lambda>r. rec_get r ''description'') (snd (tall_records ex_meta ex_cfg [[ex_tall_row]] audit_init))
     = [''5'' @ [CHR 0x22] @ '' splint'']
   \<and> map (\<lambda>r. tall_cell r ''description'') (snd (tall_records ex_meta ex_cfg [[ex_tall_row]] audit_init))
     = [[CHR 0x22] @ ''5'' @ [CHR 0x27, CHR 0x27] @ '' splint'' @ [CHR 0x22]]"
  by code_simp

subsection \<open>C6\<close>

text \<open>
  C6. The modifier extractor, given any raw modifier string, returns the tokens obtained
  by splitting on comma or pipe, trimming every piece and discarding the empty pieces, in
  source order; afterwards the frequency counter of every token has grown by the number of
  its occurrences among the returned tokens. The input "A, B|C" yields A, B, C, each
  tallied once, and the empty string yields no token and leaves the counters as they were.
\<close>

theorem modifier_extractor_contract:
  "fst (extract_modifiers raw counts) = spec_modifier_tokens raw
   \<and> dd_get (snd (extract_modifiers raw counts)) m
       = dd_get counts m + count_list (spec_modifier_tokens raw) m
   \<and> extract_modifiers ''A, B|C'' [] = ([''A'', ''B'', ''C''], [(''A'', 1), (''B'', 1), (''C'', 1)])
   \<and> extract_modifiers '''' counts = ([], counts)"
proof -
  have a: "fst (extract_modifiers raw counts) = spec_modifier_tokens raw"
    by (simp add: extract_modifiers_def Let_def modifier_list_spec)
  have b: "dd_get (snd (extract_modifiers raw counts)) m
       = dd_get counts m + count_list (spec_modifier_tokens raw) m"
    by (simp add: extract_modifiers_def Let_def modifier_list_spec dd_get_fold_incr)
  have c: "extract_modifiers ''A, B|C'' []
       = ([''A'', ''B'', ''C''], [(''A'', 1), (''B'', 1), (''C'', 1)])"
    by (simp add: extract_modifiers_def modifier_list_def strip_def is_space_def
        is_mod_delim_def Let_def)
  have d: "extract_modifiers '''' counts = ([], counts)"
    by (simp add: extract_modifiers_def modifier_list_def strip_def Let_def)
  from a b c d show ?thesis by blast
qed

subsection \<open>C7\<close>



subsection \<open>C8\<close>

text \<open>
  C8, as the claim states it, fails: the column loop skips a selected payer column whose
  payer segment is empty. The columns \<^verbatim>\<open>standard_charge||PlanA|negotiated_dollar\<close>
  and \<^verbatim>\<open>standard_charge||PlanA|methodology\<close> are both selected, both hold a value,
  and both parse to the empty payer name and the plan name PlanA, so with the row's one
  admitted code slot they have one and the same group key; yet the row yields no record.
\<close>

theorem empty_payer_columns_produce_no_record:
  "payer_cols ex_nopayer_columns
     = [''standard_charge||PlanA|negotiated_dollar'', ''standard_charge||PlanA|methodology'']
   \<and> parse_column_for_payer ''standard_charge||PlanA|negotiated_dollar''
       = Some (''standard_charge'', [], ''PlanA'')
   \<and> parse_column_for_payer ''standard_charge||PlanA|methodology''
       = Some (''standard_charge'', [], ''PlanA'')
   \<and> map (row_get ex_nopayer_row) (payer_cols ex_nopayer_columns) = [''100'', ''case rate'']
   \<and> admitted_slots ex_cfg ex_nopayer_row = [(''99213'', ''CPT'')]
   \<and> snd (wide_row ex_meta ex_cfg (payer_cols ex_nopayer_columns) ex_nopayer_row audit_init) = []"
  by code_simp

text \<open>
  C8, amended. In the wide walker, within one body row, a selected payer column makes
  assignments only if its payer segment and its cell are both non-empty; it then assigns
  its value to its canonical field under the group key (code, canonical code type, payer
  name, plan name) of every admitted code slot, column by column in the order of the
  selected payer columns. The emitted records have pairwise distinct group keys, and these
  are exactly the keys of the assignments made: all assignments with one key go to one
  record. Each pivoted field of a record holds the value of the last assignment to that
  field under the record's key (the empty string if there was none), and the notes of a
  record are the row's generic note and the last assigned payer note, the non-empty ones
  joined by a comma and a blank. The walker is a total function of the row: no assignment
  raises.
\<close>

theorem wide_group_one_record_last_write:
  "wide_writes cfg (payer_cols all_columns) row
     = concat (map (column_writes cfg row) (payer_cols all_columns))
   \<and> distinct (map group_key_of (snd (wide_row meta cfg (payer_cols all_columns) row a)))
   \<and> set (map group_key_of (snd (wide_row meta cfg (payer_cols all_columns) row a)))
       = fst ` set (wide_writes cfg (payer_cols all_columns) row)
   \<and> map (\<lambda>r. map (rec_get r) pivoted_fields) (snd (wide_row meta cfg (payer_cols all_columns) row a))
       = map (\<lambda>r. map (written_value (wide_writes cfg (payer_cols all_columns) row) (group_key_of r))
                    pivoted_fields)
           (snd (wide_row meta cfg (payer_cols all_columns) row a))
   \<and> map (\<lambda>r. rec_get r ''additional notes'') (snd (wide_row meta cfg (payer_cols all_columns) row a))
       = map (\<lambda>r. spec_combined_notes (strip (row_get row ''additional_generic_notes''))
                    (written_value (wide_writes cfg (payer_cols all_columns) row) (group_key_of r)
                       ''additional notes''))
           (snd (wide_row meta cfg (payer_cols all_columns) row a))"
proof -
  let ?pcols = "payer_cols all_columns"
  let ?ws = "wide_writes cfg ?pcols row"
  let ?prm = "fold prm_assign ?ws []"
  let ?gn = "strip (row_get row ''additional_generic_notes'')"
  let ?mr = "strip (row_get row ''modifiers'')"
  let ?rec = "\<lambda>item. wide_record meta row ?gn ?mr (fst item) (snd item)"
  have recs: "snd (wide_row meta cfg ?pcols row a) = map ?rec ?prm"
    by (rule wide_row_out)
  have keys: "map group_key_of (map ?rec ?prm) = map fst ?prm"
    by (simp add: group_key_wide_record comp_def)
  have d: "distinct (map fst ?prm)"
    by (rule prm_distinct_fold) simp
  have s: "set (map fst ?prm) = fst ` set ?ws"
    by (simp add: prm_keys_fold)
  have p: "map (\<lambda>r. map (rec_get r) pivoted_fields) (map ?rec ?prm)
       = map (\<lambda>r. map (written_value ?ws (group_key_of r)) pivoted_fields) (map ?rec ?prm)"
    unfolding map_map comp_def
    by (rule map_cong [OF refl])
       (simp add: pivoted_wide_record group_key_wide_record written_value_def prm_item_last_write)
  have n: "map (\<lambda>r. rec_get r ''additional notes'') (map ?rec ?prm)
       = map (\<lambda>r. spec_combined_notes ?gn (written_value ?ws (group_key_of r) ''additional notes''))
           (map ?rec ?prm)"
    unfolding map_map comp_def
    by (rule map_cong [OF refl])
       (simp only: notes_wide_record_spec group_key_wide_record written_value_def prm_item_last_write)
  from d s p n show ?thesis
    unfolding recs keys using selected_writes [of cfg all_columns row] by blast
qed

text \<open>
  An instance of the overwrite: the columns \<^verbatim>\<open>standard_charge|PayerA|PlanA|negotiated_dollar\<close>
  (value "100") and \<^verbatim>\<open>negotiated_dollar|PayerA|PlanA\<close> (value "7") have the same key
  and field; the row yields one record, with the later column's value.
\<close>

lemma later_column_overwrites_example:
  "wide_writes ex_cfg (payer_cols ex_dup_columns) ex_dup_row
     = [((''99213'', ''CPT'', ''PayerA'', ''PlanA''), ''negotiated price'', ''100''),
        ((''99213'', ''CPT'', ''PayerA'', ''PlanA''), ''negotiated price'', ''7'')]
   \<and> map record_view (snd (wide_row ex_meta ex_cfg (payer_cols ex_dup_columns) ex_dup_row audit_init))
     = [((''99213'', ''CPT'', ''PayerA'', ''PlanA''), ''7'', [])]"
  by code_simp

subsection \<open>C9\<close>



subsection \<open>C10\<close>

text \<open>
  C10. For every run of the wide-format walker, no emitted record has an
  "insurance payer id" entry, so that column of the written table is empty in every row,
  and the run leaves the field-presence count of "insurance payer id" as it found it: zero
  in the report of a run that starts from the empty accumulators.
\<close>

theorem wide_payer_id_never_populated:
  "list_all (\<lambda>r. map_of r ''insurance payer id'' = None \<and> rec_get r ''insurance payer id'' = [])
     (snd (wide_records meta cfg all_columns body a))
   \<and> map_of (field_presence_summary (wide_log meta cfg mrf all_columns body a)) ''insurance payer id''
       = Some (dd_get (FIELD_PRESENCE_LOG a) ''insurance payer id'')
   \<and> map_of (field_presence_summary (wide_log meta cfg mrf all_columns body audit_init))
       ''insurance payer id'' = Some 0"
proof -
  let ?recs = "\<lambda>s. snd (wide_records meta cfg all_columns body s)"
  have n: "list_all (\<lambda>r. map_of r ''insurance payer id'' = None) (?recs s)" for s
    by (rule wide_records_no_payer_id)
  have a: "list_all (\<lambda>r. map_of r ''insurance payer id'' = None \<and> rec_get r ''insurance payer id'' = [])
     (?recs a)"
    using n [of a] by (simp add: list_all_iff rec_get_def)
  have "list_all (\<lambda>r. \<not> field_truthy str_truthy r ''insurance payer id'') (?recs s)" for s
    using n [of s] by (simp add: list_all_iff field_truthy_def)
  then have z: "filter (\<lambda>r. field_truthy str_truthy r ''insurance payer id'') (?recs s) = []" for s
    by (rule filter_none)
  have h: "''insurance payer id'' \<in> set HEADERS_wide"
    by (simp add: HEADERS_wide_def)
  have b: "map_of (field_presence_summary (wide_log meta cfg mrf all_columns body s)) ''insurance payer id''
       = Some (dd_get (FIELD_PRESENCE_LOG s) ''insurance payer id'')" for s
    by (simp only: wide_log_summary wide_summary_count map_of_summary h z if_True list.size add_0_right)
  from a b [of a] b [of audit_init] show ?thesis by simp
qed

end
